theory Spec2Isabelle
  imports Main
begin

section \<open>The two databases\<close>

text \<open>
  The program keeps an authors database (\<open>main\<close>: users, blog, post, comment) and a
  logging database attached to the same connection (event_type, space_type, logs);
  \<open>DBInterface.create_tables\<close> holds the schema.  A row is a record with one field per
  column.  A column declared without \<open>NOT NULL\<close> is an \<open>option\<close>, \<open>None\<close> being SQL's
  NULL.  Every \<open>id\<close> is an \<open>INTEGER NOT NULL PRIMARY KEY\<close>, that is SQLite's rowid.
  Field names carry the alias the report queries give the table (\<open>usr\<close>, \<open>pst\<close>,
  \<open>cmt\<close>, \<open>lgs\<close>), since the same column name occurs in several tables.
\<close>

record users_row =
  usr_id :: int
  usr_email :: "string option"
  usr_login :: string

record blog_row =
  blg_id :: int
  blg_owner_id :: "int option"
  blg_name :: string
  blg_description :: "string option"

record post_row =
  pst_id :: int
  pst_header :: string
  pst_text :: "string option"
  pst_author_id :: "int option"
  pst_blog_id :: "int option"

record comment_row =
  cmt_id :: int
  cmt_text :: "string option"
  cmt_author_id :: "int option"
  cmt_post_id :: "int option"

record type_row =
  typ_id :: int
  typ_name :: string

record logs_row =
  lgs_id :: int
  lgs_datetime :: string
  lgs_user_id :: "int option"
  lgs_space_type_id :: "int option"
  lgs_event_type_id :: "int option"

text \<open>
  A store is what the connection sees: for each of the seven tables either \<open>None\<close> (the
  table has not been created) or its rows in rowid order, which is the order in which a
  table scan without an index visits them.
\<close>

record store =
  users :: "users_row list option"
  blog :: "blog_row list option"
  post :: "post_row list option"
  comment :: "comment_row list option"
  event_type :: "type_row list option"
  space_type :: "type_row list option"
  logs :: "logs_row list option"

definition fresh_store :: store where
  "fresh_store = \<lparr>users = None, blog = None, post = None, comment = None,
     event_type = None, space_type = None, logs = None\<rparr>"

text \<open>
  The exceptions the modelled code can raise: \<open>IndexError\<close> from \<open>random.choice\<close> on an
  empty list, \<open>sqlite3.OperationalError\<close> from a statement SQLite rejects (a syntax error,
  a missing table, a table that already exists).
\<close>

datatype error = IndexError | OperationalError

text \<open>
  Every statement of the program is built by pasting text between quotes.  A call
  therefore ends in one of three ways.  \<open>Returns\<close> and \<open>Raises\<close> are a normal return and
  an exception.  \<open>Other_Statement\<close> stands for the runs in which a pasted text is not read
  back by SQLite as the string it was written to be, so that the statement executed is
  not the one in the source (or is refused by the driver); what happens then is not
  described here, and every theorem about a result excludes these runs by a computable
  condition on the text.
\<close>

datatype 'a outcome = Returns 'a | Raises error | Other_Statement

definition and_then :: "'a outcome \<Rightarrow> ('a \<Rightarrow> 'b outcome) \<Rightarrow> 'b outcome" where
  "and_then r f = (case r of Returns x \<Rightarrow> f x | Raises e \<Rightarrow> Raises e
     | Other_Statement \<Rightarrow> Other_Statement)"

subsection \<open>Row ids\<close>

text \<open>
  An insert that gives no id takes the largest rowid in the table plus one, and 1 in an
  empty table; the rows of one multi-row \<open>VALUES\<close> list are numbered in the order in
  which they are written.  (SQLite's rowids are 64-bit, and at the largest of them it
  looks for an unused id at random; the ids here are unbounded, so this model describes
  the tables whose ids stay below that bound.)
\<close>

definition next_id :: "int list \<Rightarrow> int" where
  "next_id ids = (if ids = [] then 1 else Max (set ids) + 1)"

definition new_ids :: "int list \<Rightarrow> nat \<Rightarrow> int list" where
  "new_ids ids n = map (\<lambda>k. next_id ids + int k) [0..<n]"

text \<open>
  The rows that come of inserting the values \<open>vals\<close> into a table whose ids are \<open>ids\<close>;
  \<open>row\<close> makes a row from its id and its value.
\<close>

definition inserted :: "int list \<Rightarrow> (int \<Rightarrow> 'v \<Rightarrow> 'r) \<Rightarrow> 'v list \<Rightarrow> 'r list" where
  "inserted ids row vals = map (\<lambda>(i, v). row i v) (zip (new_ids ids (length vals)) vals)"

text \<open>SQL's \<open>==\<close>: a comparison with NULL is never true.\<close>

definition sql_eq :: "'a option \<Rightarrow> 'a option \<Rightarrow> bool" where
  "sql_eq a b = (case (a, b) of (Some x, Some y) \<Rightarrow> x = y | _ \<Rightarrow> False)"

section \<open>Schema creation\<close>

text \<open>
  \<open>create_tables\<close> hands one script of nine statements to \<open>executescript\<close>: seven
  \<open>CREATE TABLE\<close> and two \<open>INSERT\<close>.  The statements run one after the other, each taking
  effect at once; the first that fails ends the script with \<open>OperationalError\<close> and the
  statements before it stay applied.  So the result is the store reached together with
  the error, if any.
\<close>

definition create_table ::
  "(store \<Rightarrow> 'r list option) \<Rightarrow> (store \<Rightarrow> store) \<Rightarrow> store \<Rightarrow> error + store" where
  "create_table tbl created s =
     (if tbl s = None then Inr (created s) else Inl OperationalError)"

definition named_rows :: "type_row list \<Rightarrow> string list \<Rightarrow> type_row list" where
  "named_rows rows names =
     rows @ inserted (map typ_id rows) (\<lambda>i n. \<lparr>typ_id = i, typ_name = n\<rparr>) names"

text \<open>The name a lookup table gives an id.\<close>

definition name_of :: "type_row list option \<Rightarrow> int \<Rightarrow> string option" where
  "name_of tbl i = (case tbl of None \<Rightarrow> None
     | Some rows \<Rightarrow> map_option typ_name (find (\<lambda>r. typ_id r = i) rows))"

definition insert_event_types :: "store \<Rightarrow> error + store" where
  "insert_event_types s = (case event_type s of
       None \<Rightarrow> Inl OperationalError
     | Some rows \<Rightarrow> Inr (s\<lparr>event_type := Some (named_rows rows
         [''login'', ''comment'', ''create_post'', ''delete_post'', ''logout''])\<rparr>))"

definition insert_space_types :: "store \<Rightarrow> error + store" where
  "insert_space_types s = (case space_type s of
       None \<Rightarrow> Inl OperationalError
     | Some rows \<Rightarrow> Inr (s\<lparr>space_type := Some (named_rows rows
         [''global'', ''blog'', ''post''])\<rparr>))"

fun executescript :: "(store \<Rightarrow> error + store) list \<Rightarrow> store \<Rightarrow> error option \<times> store" where
  "executescript [] s = (None, s)"
| "executescript (stmt # stmts) s =
     (case stmt s of Inl e \<Rightarrow> (Some e, s) | Inr s' \<Rightarrow> executescript stmts s')"

definition create_tables :: "store \<Rightarrow> error option \<times> store" where
  "create_tables = executescript
     [create_table users (\<lambda>s. s\<lparr>users := Some []\<rparr>),
      create_table blog (\<lambda>s. s\<lparr>blog := Some []\<rparr>),
      create_table post (\<lambda>s. s\<lparr>post := Some []\<rparr>),
      create_table comment (\<lambda>s. s\<lparr>comment := Some []\<rparr>),
      create_table event_type (\<lambda>s. s\<lparr>event_type := Some []\<rparr>),
      create_table space_type (\<lambda>s. s\<lparr>space_type := Some []\<rparr>),
      create_table logs (\<lambda>s. s\<lparr>logs := Some []\<rparr>),
      insert_event_types,
      insert_space_types]"

section \<open>Texts pasted into statements\<close>

abbreviation sq :: char where "sq \<equiv> CHR 0x27"
abbreviation dq :: char where "dq \<equiv> CHR 0x22"
abbreviation nul :: char where "nul \<equiv> CHR 0x00"
abbreviation backslash :: char where "backslash \<equiv> CHR 0x5C"
abbreviation newline :: char where "newline \<equiv> CHR 0x0A"

text \<open>
  The fill functions write \<open>'{text}'\<close> in an f-string.  SQLite reads the text back as the
  string literal it was meant to be exactly when the text holds no single quote (a
  single quote ends the literal); the driver refuses a statement that holds a NUL.
\<close>

definition pasted :: "string \<Rightarrow> bool" where
  "pasted t = (sq \<notin> set t \<and> nul \<notin> set t)"

text \<open>
  \<open>fill_users\<close> writes \<open>str(pair)\<close> for a pair of Python strings, which is the \<open>repr\<close>
  of each.  \<open>repr\<close> leaves a printable ASCII character other than the backslash as it is
  and puts the text between single quotes, unless the text holds a single quote and no
  double quote: then it puts it between double quotes, which SQLite reads as a string in
  a \<open>VALUES\<close> list, where no column is in scope.  A text with both kinds of quote gets a
  backslash escape that SQLite does not know.
\<close>

definition printable :: "char \<Rightarrow> bool" where
  "printable c = (32 \<le> (of_char c :: nat) \<and> (of_char c :: nat) \<le> 126)"

definition stored_as_written :: "string \<Rightarrow> bool" where
  "stored_as_written t =
     (list_all (\<lambda>c. printable c \<and> c \<noteq> backslash) t \<and> \<not> (sq \<in> set t \<and> dq \<in> set t))"

text \<open>
  The report queries write \<open>usr.login == "{username}"\<close>.  SQLite reads a double-quoted
  token as a name first: as the column or result alias of that name in scope (names
  compare without regard to ASCII case), and as a string only when there is none.  (This
  is SQLite's default, on which both queries rely: were it switched off, no login would
  be read as a string.)  Inside the token a doubled double quote stands for one, and a
  single one ends the token; \<open>dq_token_ends\<close> follows SQLite's tokenizer over the text
  after the opening quote and says whether the token ends at all.
\<close>

definition ascii_lower :: "char \<Rightarrow> char" where
  "ascii_lower c = (let n = (of_char c :: nat)
     in if 65 \<le> n \<and> n \<le> 90 then char_of (n + 32) else c)"

fun dq_token_ends :: "string \<Rightarrow> bool" where
  "dq_token_ends [] = False"
| "dq_token_ends [c] = (c = dq)"
| "dq_token_ends (c # d # cs) =
     (if c = dq then (if d = dq then dq_token_ends cs else True)
      else dq_token_ends (d # cs))"

datatype operand = Literal string | Unterminated | Not_Literal

text \<open>
  \<open>login_operand scope rest u\<close> is what the right-hand side of the comparison is once the
  login \<open>u\<close> has been pasted in, \<open>scope\<close> being the lower-cased names in scope at that place
  and \<open>rest\<close> the text of the statement after the closing quote.  A login without a
  double quote is the token's whole text: a string (\<open>Literal\<close>) unless it is a name in
  scope.  A login with a double quote either leaves a token open to the end of the
  statement, which SQLite rejects with a syntax error (\<open>Unterminated\<close>), or changes the
  statement.  \<open>Not_Literal\<close> covers the changed statement, the name in scope and the NUL,
  which the driver refuses.
\<close>

definition login_operand :: "string list \<Rightarrow> string \<Rightarrow> string \<Rightarrow> operand" where
  "login_operand scope rest u =
     (if nul \<in> set u then Not_Literal
      else if dq \<notin> set u then
        (if map ascii_lower u \<in> set scope then Not_Literal else Literal u)
      else if dq_token_ends (u @ dq # rest) then Not_Literal
      else Unterminated)"

text \<open>
  The logins for which the pasted text is the string it was written to be: no double
  quote, no NUL, and not a name in scope.
\<close>

definition read_as_written :: "string list \<Rightarrow> string \<Rightarrow> bool" where
  "read_as_written scope u =
     (dq \<notin> set u \<and> nul \<notin> set u \<and> map ascii_lower u \<notin> set scope)"

section \<open>The generators of \<open>script/misc.py\<close>\<close>

text \<open>
  Each generator asks an optional library (faker, lorem) and has a fixed answer when the
  library is not installed.  The argument is the library's answer to this one call, \<open>None\<close>
  when the library is absent.  Texts are strings of 8-bit characters; on ASCII, which is
  all that the theorems about generated names admit, \<open>ascii_lower\<close> is Python's
  \<open>str.lower\<close>.
\<close>

definition get_name :: "string option \<Rightarrow> string" where
  "get_name faker = (case faker of None \<Rightarrow> ''User Name'' | Some n \<Rightarrow> n)"

definition get_sentence :: "string option \<Rightarrow> string" where
  "get_sentence lorem = (case lorem of None \<Rightarrow> ''Random sentence'' | Some t \<Rightarrow> t)"

definition get_description :: "string option \<Rightarrow> string" where
  "get_description lorem = (case lorem of None \<Rightarrow> ''Random description'' | Some t \<Rightarrow> t)"

record datetime =
  dt_year :: nat
  dt_month :: nat
  dt_day :: nat
  dt_hour :: nat
  dt_minute :: nat
  dt_second :: nat
  dt_microsecond :: nat

text \<open>
  One call of \<open>get_random_date\<close> sees the clock (\<open>datetime.now()\<close>) and, when faker is
  installed, faker's \<open>date_time_between\<close>, which is given the two ends of the window as
  the texts the caller wrote (\<open>-5d\<close>, \<open>now\<close>, ...).
\<close>

record clock =
  now :: datetime
  date_time_between :: "(string \<Rightarrow> string \<Rightarrow> datetime) option"

definition get_random_date :: "clock \<Rightarrow> string \<Rightarrow> string \<Rightarrow> datetime" where
  "get_random_date c starts ends =
     (case date_time_between c of None \<Rightarrow> now c | Some f \<Rightarrow> f starts ends)"

text \<open>
  The place of a datetime on the timeline, in microseconds.  Python numbers the days of
  the proleptic Gregorian calendar from 0001-01-01 (\<open>toordinal\<close>); the fields of a Python
  datetime are always in range.  \<open>lies_within base lo hi t\<close> says that \<open>t\<close> lies from \<open>lo\<close>
  to \<open>hi\<close> days after \<open>base\<close>, both ends included.
\<close>

definition is_leap :: "int \<Rightarrow> bool" where
  "is_leap y = (y mod 4 = 0 \<and> (y mod 100 \<noteq> 0 \<or> y mod 400 = 0))"

definition days_before_year :: "int \<Rightarrow> int" where
  "days_before_year y = (y - 1) * 365 + (y - 1) div 4 - (y - 1) div 100 + (y - 1) div 400"

definition days_before_month :: "int \<Rightarrow> nat \<Rightarrow> int" where
  "days_before_month y m =
     (if m < 13 then [0, 0, 31, 59, 90, 120, 151, 181, 212, 243, 273, 304, 334] ! m else 0) +
     (if 2 < m \<and> is_leap y then 1 else 0)"

definition toordinal :: "datetime \<Rightarrow> int" where
  "toordinal d = days_before_year (int (dt_year d)) +
     days_before_month (int (dt_year d)) (dt_month d) + int (dt_day d)"

definition instant :: "datetime \<Rightarrow> int" where
  "instant d = (((toordinal d * 24 + int (dt_hour d)) * 60 + int (dt_minute d)) * 60 +
     int (dt_second d)) * 1000000 + int (dt_microsecond d)"

definition lies_within :: "datetime \<Rightarrow> int \<Rightarrow> int \<Rightarrow> datetime \<Rightarrow> bool" where
  "lies_within base lo hi t =
     (instant base + lo * 86400000000 \<le> instant t \<and>
      instant t \<le> instant base + hi * 86400000000)"

text \<open>
  The contract of faker's \<open>date_time_between\<close>, for one call and one window: when faker
  is installed, its answer for the window \<open>starts\<close> to \<open>ends\<close> lies from \<open>lo\<close> to \<open>hi\<close> days
  after the time of the call.  It is the library's: a theorem that bounds a timestamp
  takes it as a hypothesis for the window in question.
\<close>

definition answers_within :: "clock \<Rightarrow> string \<Rightarrow> string \<Rightarrow> int \<Rightarrow> int \<Rightarrow> bool" where
  "answers_within c starts ends lo hi =
     (case date_time_between c of
        None \<Rightarrow> True
      | Some f \<Rightarrow> lies_within (now c) lo hi (f starts ends))"

text \<open>
  The f-strings format a datetime with \<open>str\<close>: \<open>YYYY-MM-DD HH:MM:SS\<close>, followed by
  \<open>.ffffff\<close> when the microseconds are not zero.
\<close>

definition digit :: "nat \<Rightarrow> char" where
  "digit n = ''0123456789'' ! (n mod 10)"

fun zero_padded :: "nat \<Rightarrow> nat \<Rightarrow> string" where
  "zero_padded 0 n = []"
| "zero_padded (Suc w) n = zero_padded w (n div 10) @ [digit n]"

definition str_datetime :: "datetime \<Rightarrow> string" where
  "str_datetime d =
     zero_padded 4 (dt_year d) @ ''-'' @ zero_padded 2 (dt_month d) @ ''-'' @
     zero_padded 2 (dt_day d) @ '' '' @ zero_padded 2 (dt_hour d) @ '':'' @
     zero_padded 2 (dt_minute d) @ '':'' @ zero_padded 2 (dt_second d) @
     (if dt_microsecond d = 0 then [] else ''.'' @ zero_padded 6 (dt_microsecond d))"

text \<open>
  \<open>random.choice\<close> raises \<open>IndexError\<close> on an empty list and otherwise returns the element
  at a random index below the length; \<open>r\<close> is the random number drawn.
  \<open>random.randint a b\<close> returns an integer from \<open>a\<close> to \<open>b\<close>, both included.
\<close>

definition choice :: "'a list \<Rightarrow> nat \<Rightarrow> 'a outcome" where
  "choice xs r = (if xs = [] then Raises IndexError else Returns (xs ! (r mod length xs)))"

definition randint :: "int \<Rightarrow> int \<Rightarrow> nat \<Rightarrow> int" where
  "randint a b r = a + int (r mod nat (b - a + 1))"

section \<open>Filling the tables\<close>

text \<open>
  \<open>__get_all_ids__\<close> selects the ids of a table, in scan order; it fails when the table
  does not exist.
\<close>

definition get_all_ids :: "'r list option \<Rightarrow> ('r \<Rightarrow> int) \<Rightarrow> int list outcome" where
  "get_all_ids tbl key =
     (case tbl of None \<Rightarrow> Raises OperationalError | Some rows \<Rightarrow> Returns (map key rows))"

text \<open>
  A loop or comprehension whose body can raise: the first exception ends it.
\<close>

fun collect :: "'a outcome list \<Rightarrow> 'a list outcome" where
  "collect [] = Returns []"
| "collect (r # rs) = and_then r (\<lambda>x. and_then (collect rs) (\<lambda>xs. Returns (x # xs)))"

text \<open>
  One \<open>INSERT ... VALUES v1, v2, ...\<close> built from the list \<open>vals\<close>: \<open>texts\<close> gives the
  pasted texts of a value and \<open>ok\<close> says when a text is read back as written, \<open>row\<close> makes
  the table row from the new id and the value.  With no value the statement is
  \<open>... VALUES ;\<close>, a syntax error.  The result is the table after the insert.
\<close>

definition insert_values ::
  "'r list option \<Rightarrow> ('r \<Rightarrow> int) \<Rightarrow> (int \<Rightarrow> 'v \<Rightarrow> 'r) \<Rightarrow> (string \<Rightarrow> bool) \<Rightarrow>
   ('v \<Rightarrow> string list) \<Rightarrow> 'v list \<Rightarrow> 'r list outcome" where
  "insert_values tbl key row ok texts vals =
     (if vals = [] then Raises OperationalError
      else if \<not> list_all ok (concat (map texts vals)) then Other_Statement
      else case tbl of
          None \<Rightarrow> Raises OperationalError
        | Some rows \<Rightarrow> Returns (rows @ inserted (map key rows) row vals))"

subsection \<open>\<open>fill_users\<close>\<close>

definition email_of :: "string \<Rightarrow> string" where
  "email_of name =
     map (\<lambda>c. if c = CHR '' '' then CHR ''_'' else c) (map ascii_lower name) @
     ''@example.com''"

definition users_of :: "int \<Rightarrow> string \<times> string \<Rightarrow> users_row" where
  "users_of i v = \<lparr>usr_id = i, usr_email = Some (fst v), usr_login = snd v\<rparr>"

text \<open>\<open>faker i\<close> is faker's answer to the \<open>i\<close>-th call of \<open>get_name\<close>.\<close>

definition fill_users :: "(nat \<Rightarrow> string option) \<Rightarrow> int \<Rightarrow> store \<Rightarrow> store outcome" where
  "fill_users faker count s =
     (let logins = map (\<lambda>i. get_name (faker i)) [0..<nat count];
          emails = map email_of logins
      in and_then
           (insert_values (users s) usr_id users_of stored_as_written
              (\<lambda>v. [fst v, snd v]) (zip emails logins))
           (\<lambda>rows. Returns (s\<lparr>users := Some rows\<rparr>)))"

subsection \<open>\<open>fill_blogs\<close>\<close>

text \<open>What one pass of the comprehension draws: the random number of
  \<open>random.choice\<close> and lorem's two answers.\<close>

record blog_draw =
  bd_owner :: nat
  bd_sentence :: "string option"
  bd_description :: "string option"

definition blog_of :: "int \<Rightarrow> int \<times> string \<times> string \<Rightarrow> blog_row" where
  "blog_of i v = (case v of (owner, name, description) \<Rightarrow>
     \<lparr>blg_id = i, blg_owner_id = Some owner, blg_name = name,
      blg_description = Some description\<rparr>)"

definition blog_values :: "int list \<Rightarrow> blog_draw \<Rightarrow> (int \<times> string \<times> string) outcome" where
  "blog_values user_ids d =
     and_then (choice user_ids (bd_owner d)) (\<lambda>owner.
     Returns (owner, get_sentence (bd_sentence d), get_description (bd_description d)))"

definition fill_blogs :: "(nat \<Rightarrow> blog_draw) \<Rightarrow> int \<Rightarrow> store \<Rightarrow> store outcome" where
  "fill_blogs draw count s =
     and_then (get_all_ids (users s) usr_id) (\<lambda>user_ids.
     and_then (collect (map (\<lambda>i. blog_values user_ids (draw i)) [0..<nat count])) (\<lambda>vals.
     and_then (insert_values (blog s) blg_id blog_of pasted
                 (\<lambda>v. case v of (owner, name, description) \<Rightarrow> [name, description]) vals)
       (\<lambda>rows. Returns (s\<lparr>blog := Some rows\<rparr>))))"

subsection \<open>\<open>fill_posts\<close>\<close>

text \<open>A log value is \<open>(datetime, user_id, space_type_id, event_type_id)\<close>.\<close>

type_synonym log_value = "string \<times> int \<times> int \<times> int"

definition logs_of :: "int \<Rightarrow> log_value \<Rightarrow> logs_row" where
  "logs_of i v = (case v of (datetime, user_id, space_type_id, event_type_id) \<Rightarrow>
     \<lparr>lgs_id = i, lgs_datetime = datetime, lgs_user_id = Some user_id,
      lgs_space_type_id = Some space_type_id, lgs_event_type_id = Some event_type_id\<rparr>)"

definition log_texts :: "log_value \<Rightarrow> string list" where
  "log_texts v = [fst v]"

text \<open>The columns of a log row other than its id.\<close>

definition log_fields :: "logs_row \<Rightarrow> string \<times> int option \<times> int option \<times> int option" where
  "log_fields l = (lgs_datetime l, lgs_user_id l, lgs_space_type_id l, lgs_event_type_id l)"

record post_draw =
  pd_user :: nat
  pd_blog :: nat
  pd_sentence :: "string option"
  pd_description :: "string option"
  pd_created :: clock
  pd_randint :: nat
  pd_deleted :: clock

type_synonym post_value = "string \<times> string \<times> int \<times> int"

definition post_of :: "int \<Rightarrow> post_value \<Rightarrow> post_row" where
  "post_of i v = (case v of (header, txt, author_id, blog_id) \<Rightarrow>
     \<lparr>pst_id = i, pst_header = header, pst_text = Some txt,
      pst_author_id = Some author_id, pst_blog_id = Some blog_id\<rparr>)"

text \<open>One pass of the loop of \<open>fill_posts\<close>: the post's value and its log values.\<close>

definition post_values ::
  "int list \<Rightarrow> int list \<Rightarrow> post_draw \<Rightarrow> (post_value \<times> log_value list) outcome" where
  "post_values user_ids blog_ids d =
     and_then (choice user_ids (pd_user d)) (\<lambda>user_id.
     and_then (choice blog_ids (pd_blog d)) (\<lambda>blog_id.
     Returns
       ((get_sentence (pd_sentence d), get_description (pd_description d), user_id, blog_id),
        [(str_datetime (get_random_date (pd_created d) ''-2d'' ''now''), user_id, 2, 3)] @
        (if randint 0 3 (pd_randint d) = 1
         then [(str_datetime (get_random_date (pd_deleted d) ''+1d'' ''+4d''), user_id, 2, 4)]
         else []))))"

definition fill_posts :: "(nat \<Rightarrow> post_draw) \<Rightarrow> int \<Rightarrow> store \<Rightarrow> store outcome" where
  "fill_posts draw count s =
     and_then (get_all_ids (users s) usr_id) (\<lambda>user_ids.
     and_then (get_all_ids (blog s) blg_id) (\<lambda>blog_ids.
     and_then (collect (map (\<lambda>i. post_values user_ids blog_ids (draw i)) [0..<nat count]))
       (\<lambda>vals.
     and_then (insert_values (post s) pst_id post_of pasted
                 (\<lambda>v. case v of (header, txt, author_id, blog_id) \<Rightarrow> [header, txt])
                 (map fst vals)) (\<lambda>posts.
     and_then (insert_values (logs s) lgs_id logs_of pasted log_texts (concat (map snd vals)))
       (\<lambda>lgs. Returns (s\<lparr>post := Some posts, logs := Some lgs\<rparr>))))))"

subsection \<open>\<open>fill_comments\<close>\<close>

record comment_draw =
  cd_user :: nat
  cd_post :: nat
  cd_description :: "string option"
  cd_date :: clock
  cd_log_user :: nat

type_synonym comment_value = "string \<times> int \<times> int"

definition comment_of :: "int \<Rightarrow> comment_value \<Rightarrow> comment_row" where
  "comment_of i v = (case v of (txt, author_id, post_id) \<Rightarrow>
     \<lparr>cmt_id = i, cmt_text = Some txt, cmt_author_id = Some author_id,
      cmt_post_id = Some post_id\<rparr>)"

definition comment_values ::
  "int list \<Rightarrow> int list \<Rightarrow> comment_draw \<Rightarrow> (comment_value \<times> log_value) outcome" where
  "comment_values user_ids post_ids d =
     and_then (choice user_ids (cd_user d)) (\<lambda>user_id.
     and_then (choice post_ids (cd_post d)) (\<lambda>post_id.
     and_then (choice user_ids (cd_log_user d)) (\<lambda>log_user.
     Returns
       ((get_description (cd_description d), user_id, post_id),
        (str_datetime (get_random_date (cd_date d) ''now'' ''+1d''), log_user, 3, 2)))))"

definition fill_comments :: "(nat \<Rightarrow> comment_draw) \<Rightarrow> int \<Rightarrow> store \<Rightarrow> store outcome" where
  "fill_comments draw count s =
     and_then (get_all_ids (users s) usr_id) (\<lambda>user_ids.
     and_then (get_all_ids (post s) pst_id) (\<lambda>post_ids.
     and_then (collect (map (\<lambda>i. comment_values user_ids post_ids (draw i)) [0..<nat count]))
       (\<lambda>vals.
     and_then (insert_values (comment s) cmt_id comment_of pasted
                 (\<lambda>v. case v of (txt, author_id, post_id) \<Rightarrow> [txt]) (map fst vals))
       (\<lambda>comments.
     and_then (insert_values (logs s) lgs_id logs_of pasted log_texts (map snd vals))
       (\<lambda>lgs. Returns (s\<lparr>comment := Some comments, logs := Some lgs\<rparr>))))))"

subsection \<open>\<open>fill_logs_login_logout\<close>\<close>

text \<open>\<open>clocks k\<close> is what \<open>get_random_date\<close> sees for the \<open>k\<close>-th user id.\<close>

definition fill_logs_login_logout :: "(nat \<Rightarrow> clock) \<Rightarrow> bool \<Rightarrow> store \<Rightarrow> store outcome" where
  "fill_logs_login_logout clocks is_login s =
     and_then (get_all_ids (users s) usr_id) (\<lambda>user_ids.
       let date_range = (if is_login then (''-5d'', ''now'') else (''now'', ''+5d''));
           state = (if is_login then 1 else 5);
           vals = map (\<lambda>(k, user_id).
                    (str_datetime (get_random_date (clocks k) (fst date_range) (snd date_range)),
                     user_id, 1, state))
                  (zip [0..<length user_ids] user_ids)
       in and_then (insert_values (logs s) lgs_id logs_of pasted log_texts vals)
            (\<lambda>lgs. Returns (s\<lparr>logs := Some lgs\<rparr>)))"

section \<open>The two reports\<close>

text \<open>
  The names in scope where the login is pasted, lower-cased.  In
  \<open>get_user_comments_info\<close> these are the columns of \<open>cmt\<close>, \<open>usr\<close> and \<open>pst\<close> and the
  result aliases \<open>Login\<close>, \<open>Header\<close>, \<open>Author\<close>, \<open>Count\<close>; in the subquery of
  \<open>get_user_actions_info\<close> the columns of \<open>usr\<close>, then those of the enclosing \<open>lgs\<close> and its
  aliases \<open>Date\<close>, \<open>Logins\<close>, \<open>Logouts\<close>, \<open>Actions\<close>.  Both lists also hold SQLite's
  three names of the rowid.  The two \<open>rest\<close> texts are what follows the closing quote in
  the source; neither holds a double quote.
\<close>

definition comments_scope :: "string list" where
  "comments_scope = [''id'', ''text'', ''author_id'', ''post_id'', ''email'', ''login'',
     ''header'', ''blog_id'', ''author'', ''count'', ''rowid'', ''oid'', ''_rowid_'']"

definition comments_rest :: string where
  "comments_rest = newline # ''        ''"

definition actions_scope :: "string list" where
  "actions_scope = [''id'', ''email'', ''login'', ''datetime'', ''user_id'',
     ''space_type_id'', ''event_type_id'', ''date'', ''logins'', ''logouts'', ''actions'',
     ''rowid'', ''oid'', ''_rowid_'']"

definition actions_rest :: string where
  "actions_rest = '' LIMIT 1'' @ newline # ''            )'' @
     newline # ''            GROUP BY date(lgs.datetime)'' @ newline # ''        ''"

text \<open>
  A row of the comments report is \<open>(Login, Header, Author, Count)\<close>.  The query joins
  \<open>comment\<close> with \<open>users\<close> on the author and with \<open>post\<close> on the post and keeps the rows
  whose user has the login; \<open>Author\<close> and \<open>Count\<close> are scalar subqueries, the first giving
  NULL when it finds no row.  \<open>comment_rows\<close> are the rows that one row \<open>cmt\<close> of \<open>comment\<close>
  gives, \<open>cs\<close> being the whole table, which \<open>Count\<close> reads.  The rows are listed in the
  order of the nested loop over \<open>cmt\<close>, \<open>usr\<close>, \<open>pst\<close>; the query has no \<open>ORDER BY\<close>, so
  SQLite may return them in another order.
\<close>

type_synonym comments_info = "string \<times> string \<times> string option \<times> nat"

definition author_login :: "users_row list \<Rightarrow> post_row \<Rightarrow> string option" where
  "author_login us pst =
     map_option usr_login (find (\<lambda>usr_in. sql_eq (Some (usr_id usr_in)) (pst_author_id pst)) us)"

definition comments_count :: "comment_row list \<Rightarrow> comment_row \<Rightarrow> nat" where
  "comments_count cs cmt =
     length (filter (\<lambda>cmt_in. sql_eq (cmt_post_id cmt_in) (cmt_post_id cmt)) cs)"

definition comment_rows ::
  "comment_row list \<Rightarrow> users_row list \<Rightarrow> post_row list \<Rightarrow> string \<Rightarrow> comment_row \<Rightarrow>
   comments_info list" where
  "comment_rows cs us ps v cmt =
     [(usr_login usr, pst_header pst, author_login us pst, comments_count cs cmt).
        usr \<leftarrow> us, sql_eq (cmt_author_id cmt) (Some (usr_id usr)),
        pst \<leftarrow> ps, sql_eq (cmt_post_id cmt) (Some (pst_id pst)),
        usr_login usr = v]"

definition user_comments ::
  "comment_row list \<Rightarrow> users_row list \<Rightarrow> post_row list \<Rightarrow> string \<Rightarrow> comments_info list" where
  "user_comments cs us ps v = concat (map (comment_rows cs us ps v) cs)"

definition get_user_comments_info :: "store \<Rightarrow> string \<Rightarrow> comments_info list outcome" where
  "get_user_comments_info s username =
     (case login_operand comments_scope comments_rest username of
        Unterminated \<Rightarrow> Raises OperationalError
      | Not_Literal \<Rightarrow> Other_Statement
      | Literal v \<Rightarrow>
          (case (comment s, users s, post s) of
             (Some cs, Some us, Some ps) \<Rightarrow> Returns (user_comments cs us ps v)
           | _ \<Rightarrow> Raises OperationalError))"

text \<open>
  A row of the actions report is \<open>(Date, Logins, Logouts, Actions)\<close>.  The subquery gives
  the id of the first user with the login (\<open>LIMIT 1\<close>), NULL when there is none; the log
  rows of that user id are grouped by \<open>date(lgs.datetime)\<close>, one row for each value that
  occurs.  \<open>date\<close> is SQLite's function, a parameter here: it gives the calendar date of
  a timestamp and NULL for a text it cannot read.  \<open>count(CASE WHEN c THEN 1 END)\<close> counts
  the rows of the group for which \<open>c\<close> is true.  The statement does not fix the order of
  the groups (SQLite, which groups by sorting, returns them by ascending date); they are
  listed here as \<open>remdups\<close> leaves them, and the theorems do not depend on the order.
\<close>

type_synonym actions_info = "string option \<times> nat \<times> nat \<times> nat"

definition first_user_id :: "users_row list \<Rightarrow> string \<Rightarrow> int option" where
  "first_user_id us v = map_option usr_id (find (\<lambda>usr. usr_login usr = v) us)"

definition group_row :: "(string \<Rightarrow> string option) \<Rightarrow> logs_row list \<Rightarrow> string option \<Rightarrow> actions_info" where
  "group_row date_fn ls d =
     (let grp = filter (\<lambda>lgs. date_fn (lgs_datetime lgs) = d) ls
      in (d,
          length (filter (\<lambda>lgs. sql_eq (lgs_event_type_id lgs) (Some 1)) grp),
          length (filter (\<lambda>lgs. sql_eq (lgs_event_type_id lgs) (Some 5)) grp),
          length (filter (\<lambda>lgs. case lgs_space_type_id lgs of None \<Rightarrow> False | Some t \<Rightarrow> t > 1)
                    grp)))"

definition user_actions ::
  "(string \<Rightarrow> string option) \<Rightarrow> logs_row list \<Rightarrow> users_row list \<Rightarrow> string \<Rightarrow> actions_info list" where
  "user_actions date_fn ls us v =
     (let mine = filter (\<lambda>lgs. sql_eq (lgs_user_id lgs) (first_user_id us v)) ls
      in map (group_row date_fn mine) (remdups (map (\<lambda>lgs. date_fn (lgs_datetime lgs)) mine)))"

definition get_user_actions_info ::
  "(string \<Rightarrow> string option) \<Rightarrow> store \<Rightarrow> string \<Rightarrow> actions_info list outcome" where
  "get_user_actions_info date_fn s username =
     (case login_operand actions_scope actions_rest username of
        Unterminated \<Rightarrow> Raises OperationalError
      | Not_Literal \<Rightarrow> Other_Statement
      | Literal v \<Rightarrow>
          (case (logs s, users s) of
             (Some ls, Some us) \<Rightarrow> Returns (user_actions date_fn ls us v)
           | _ \<Rightarrow> Raises OperationalError))"

section \<open>Fill mode of \<open>main.py\<close>\<close>

text \<open>
  The parsed arguments of fill mode, and everything the run draws from the generators.
  A count that was not given is \<open>None\<close>; \<open>if args.users_count:\<close> skips a count that is
  \<open>None\<close> or 0.
\<close>

record fill_args =
  arg_create_tables :: bool
  arg_users_count :: "int option"
  arg_blogs_count :: "int option"
  arg_posts_count :: "int option"
  arg_comments_count :: "int option"
  arg_actions_count :: "int option"

record draws =
  drawn_names :: "nat \<Rightarrow> string option"
  drawn_blogs :: "nat \<Rightarrow> blog_draw"
  drawn_posts :: "nat \<Rightarrow> post_draw"
  drawn_comments :: "nat \<Rightarrow> comment_draw"
  drawn_clocks :: "nat \<Rightarrow> bool \<Rightarrow> nat \<Rightarrow> clock"

definition when_given :: "int option \<Rightarrow> (int \<Rightarrow> store \<Rightarrow> store outcome) \<Rightarrow> store \<Rightarrow> store outcome" where
  "when_given c f s = (case c of None \<Rightarrow> Returns s | Some n \<Rightarrow> if n = 0 then Returns s else f n s)"

text \<open>
  \<open>for i in range(args.actions_count)\<close>: a login fill, then a logout fill; \<open>i\<close> is the
  pass and \<open>n\<close> the number of passes left.
\<close>

fun fill_actions :: "(nat \<Rightarrow> bool \<Rightarrow> nat \<Rightarrow> clock) \<Rightarrow> nat \<Rightarrow> nat \<Rightarrow> store \<Rightarrow> store outcome" where
  "fill_actions clocks i 0 s = Returns s"
| "fill_actions clocks i (Suc n) s =
     and_then (fill_logs_login_logout (clocks i True) True s) (\<lambda>s1.
     and_then (fill_logs_login_logout (clocks i False) False s1)
       (fill_actions clocks (Suc i) n))"

text \<open>
  Only \<open>create_tables\<close> stands in a \<open>try\<close>, and only \<open>sqlite3.OperationalError\<close> is caught
  there: the run prints a line and goes on with the store as it is.  An exception of a
  fill is caught nowhere, so it ends the run before \<open>commit\<close>.  The result is what was
  printed and how the run ended, a return carrying the committed store.
\<close>

definition main_fill :: "fill_args \<Rightarrow> draws \<Rightarrow> store \<Rightarrow> string list \<times> store outcome" where
  "main_fill args d s =
     (let (printed, created) =
            (if arg_create_tables args
             then (case create_tables s of
                     (None, s') \<Rightarrow> ([], Returns s')
                   | (Some OperationalError, s') \<Rightarrow> ([''Tables already exist''], Returns s')
                   | (Some IndexError, s') \<Rightarrow> ([], Raises IndexError))
             else ([], Returns s))
      in (printed,
          and_then created (\<lambda>s0.
          and_then (when_given (arg_users_count args) (fill_users (drawn_names d)) s0) (\<lambda>s1.
          and_then (when_given (arg_blogs_count args) (fill_blogs (drawn_blogs d)) s1) (\<lambda>s2.
          and_then (when_given (arg_posts_count args) (fill_posts (drawn_posts d)) s2) (\<lambda>s3.
          and_then (when_given (arg_comments_count args) (fill_comments (drawn_comments d)) s3)
            (\<lambda>s4.
          when_given (arg_actions_count args)
            (\<lambda>n. fill_actions (drawn_clocks d) 0 (nat n)) s4)))))))"

section \<open>Example inputs\<close>

text \<open>
  A run of the generators in which neither faker nor lorem is installed, the clock stands
  still and the \<open>i\<close>-th random number drawn in a loop is \<open>i\<close>.
\<close>

definition example_clock :: clock where
  "example_clock = \<lparr>now = \<lparr>dt_year = 2024, dt_month = 5, dt_day = 17, dt_hour = 9,
       dt_minute = 30, dt_second = 0, dt_microsecond = 0\<rparr>, date_time_between = None\<rparr>"

text \<open>
  A clock at the same time with faker installed; faker answers within each window the
  program asks for.
\<close>

definition example_faker :: "string \<Rightarrow> string \<Rightarrow> datetime" where
  "example_faker starts ends =
     (if starts = ''-5d'' then \<lparr>dt_year = 2024, dt_month = 5, dt_day = 14, dt_hour = 8,
          dt_minute = 0, dt_second = 0, dt_microsecond = 0\<rparr>
      else if starts = ''-2d'' then \<lparr>dt_year = 2024, dt_month = 5, dt_day = 16, dt_hour = 20,
          dt_minute = 15, dt_second = 0, dt_microsecond = 0\<rparr>
      else if starts = ''+1d'' then \<lparr>dt_year = 2024, dt_month = 5, dt_day = 19, dt_hour = 12,
          dt_minute = 0, dt_second = 0, dt_microsecond = 0\<rparr>
      else \<lparr>dt_year = 2024, dt_month = 5, dt_day = 17, dt_hour = 21,
          dt_minute = 0, dt_second = 0, dt_microsecond = 0\<rparr>)"

definition faker_clock :: clock where
  "faker_clock = \<lparr>now = \<lparr>dt_year = 2024, dt_month = 5, dt_day = 17, dt_hour = 9,
       dt_minute = 30, dt_second = 0, dt_microsecond = 0\<rparr>,
     date_time_between = Some example_faker\<rparr>"

definition example_draws :: draws where
  "example_draws = \<lparr>
     drawn_names = (\<lambda>i. None),
     drawn_blogs = (\<lambda>i. \<lparr>bd_owner = i, bd_sentence = None, bd_description = None\<rparr>),
     drawn_posts = (\<lambda>i. \<lparr>pd_user = i, pd_blog = i, pd_sentence = None,
        pd_description = None, pd_created = example_clock, pd_randint = i,
        pd_deleted = example_clock\<rparr>),
     drawn_comments = (\<lambda>i. \<lparr>cd_user = i, cd_post = i, cd_description = None,
        cd_date = example_clock, cd_log_user = i\<rparr>),
     drawn_clocks = (\<lambda>i is_login k. example_clock)\<rparr>"

text \<open>The draws of \<open>fill_posts\<close> with faker installed.\<close>

definition faker_posts :: "nat \<Rightarrow> post_draw" where
  "faker_posts i = \<lparr>pd_user = i, pd_blog = i, pd_sentence = None, pd_description = None,
     pd_created = faker_clock, pd_randint = i, pd_deleted = faker_clock\<rparr>"

text \<open>The store right after \<open>create_tables\<close> on new files.\<close>

definition seeded_store :: store where
  "seeded_store = \<lparr>users = Some [], blog = Some [], post = Some [], comment = Some [],
     event_type = Some [\<lparr>typ_id = 1, typ_name = ''login''\<rparr>,
       \<lparr>typ_id = 2, typ_name = ''comment''\<rparr>, \<lparr>typ_id = 3, typ_name = ''create_post''\<rparr>,
       \<lparr>typ_id = 4, typ_name = ''delete_post''\<rparr>, \<lparr>typ_id = 5, typ_name = ''logout''\<rparr>],
     space_type = Some [\<lparr>typ_id = 1, typ_name = ''global''\<rparr>,
       \<lparr>typ_id = 2, typ_name = ''blog''\<rparr>, \<lparr>typ_id = 3, typ_name = ''post''\<rparr>],
     logs = Some []\<rparr>"

text \<open>
  A small store.  Two users share the login \<open>ann\<close>.  Comment 4 has no post and post 2 no
  author, which the schema allows (\<open>ON DELETE SET NULL\<close>).
\<close>

definition example_users :: "users_row list" where
  "example_users =
     [\<lparr>usr_id = 1, usr_email = Some ''ann@example.com'', usr_login = ''ann''\<rparr>,
      \<lparr>usr_id = 2, usr_email = Some ''bob@example.com'', usr_login = ''bob''\<rparr>,
      \<lparr>usr_id = 3, usr_email = None, usr_login = ''ann''\<rparr>]"

definition example_posts :: "post_row list" where
  "example_posts =
     [\<lparr>pst_id = 1, pst_header = ''First'', pst_text = Some ''one'', pst_author_id = Some 2,
        pst_blog_id = Some 1\<rparr>,
      \<lparr>pst_id = 2, pst_header = ''Second'', pst_text = None, pst_author_id = None,
        pst_blog_id = Some 1\<rparr>]"

definition example_comments :: "comment_row list" where
  "example_comments =
     [\<lparr>cmt_id = 1, cmt_text = Some ''a'', cmt_author_id = Some 1, cmt_post_id = Some 1\<rparr>,
      \<lparr>cmt_id = 2, cmt_text = Some ''b'', cmt_author_id = Some 1, cmt_post_id = Some 1\<rparr>,
      \<lparr>cmt_id = 3, cmt_text = Some ''c'', cmt_author_id = Some 2, cmt_post_id = Some 1\<rparr>,
      \<lparr>cmt_id = 4, cmt_text = Some ''d'', cmt_author_id = Some 1, cmt_post_id = None\<rparr>,
      \<lparr>cmt_id = 5, cmt_text = Some ''e'', cmt_author_id = Some 1, cmt_post_id = Some 2\<rparr>]"

definition example_logs :: "logs_row list" where
  "example_logs =
     [\<lparr>lgs_id = 1, lgs_datetime = ''2024-05-17 09:30:00'', lgs_user_id = Some 1,
        lgs_space_type_id = Some 1, lgs_event_type_id = Some 1\<rparr>,
      \<lparr>lgs_id = 2, lgs_datetime = ''2024-05-17 18:00:00'', lgs_user_id = Some 1,
        lgs_space_type_id = Some 1, lgs_event_type_id = Some 5\<rparr>,
      \<lparr>lgs_id = 3, lgs_datetime = ''2024-05-18 10:00:00'', lgs_user_id = Some 1,
        lgs_space_type_id = Some 3, lgs_event_type_id = Some 2\<rparr>,
      \<lparr>lgs_id = 4, lgs_datetime = ''2024-05-18 11:00:00'', lgs_user_id = Some 3,
        lgs_space_type_id = Some 1, lgs_event_type_id = Some 1\<rparr>,
      \<lparr>lgs_id = 5, lgs_datetime = ''2024-05-19 08:00:00'', lgs_user_id = Some 1,
        lgs_space_type_id = Some 1, lgs_event_type_id = Some 1\<rparr>]"

definition example_store :: store where
  "example_store = seeded_store\<lparr>users := Some example_users,
     blog := Some [\<lparr>blg_id = 1, blg_owner_id = Some 1, blg_name = ''Blog'',
                     blg_description = None\<rparr>],
     post := Some example_posts, comment := Some example_comments,
     logs := Some example_logs\<rparr>"

text \<open>On timestamps written as \<open>str\<close> writes them, SQLite's \<open>date\<close> keeps the first ten
  characters.\<close>

definition example_date :: "string \<Rightarrow> string option" where
  "example_date t = Some (take 10 t)"

section \<open>Auxiliary facts\<close>

subsection \<open>Row ids, inserts and loops\<close>

lemma new_ids_Nil: "new_ids [] n = map (\<lambda>k. 1 + int k) [0..<n]"
  by (simp add: new_ids_def next_id_def)

lemma new_ids_length: "length (new_ids ids n) = n"
  by (simp add: new_ids_def)

lemma new_ids_distinct: "distinct (new_ids ids n)"
  by (simp add: new_ids_def distinct_map inj_on_def)

lemma new_ids_fresh: "set (new_ids ids n) \<inter> set ids = {}"
proof (cases "ids = []")
  case True then show ?thesis by simp
next
  case False
  have "i \<le> Max (set ids)" if "i \<in> set ids" for i using that by simp
  then have "i < next_id ids" if "i \<in> set ids" for i using that False by (fastforce simp: next_id_def)
  then show ?thesis by (fastforce simp: new_ids_def)
qed

lemma inserted_length: "length (inserted ids row vals) = length vals"
  by (simp add: inserted_def new_ids_length)

lemma inserted_nth:
  "i < length vals \<Longrightarrow> inserted ids row vals ! i = row (next_id ids + int i) (vals ! i)"
  by (simp add: inserted_def new_ids_length new_ids_def)

lemma inserted_map:
  "(\<And>i v. g (row i v) = h v) \<Longrightarrow> map g (inserted ids row vals) = map h vals"
  by (rule nth_equalityI) (simp_all add: inserted_length inserted_nth)

lemma inserted_keys:
  "(\<And>i v. key (row i v) = i) \<Longrightarrow> map key (inserted ids row vals) = new_ids ids (length vals)"
  by (rule nth_equalityI) (simp_all add: inserted_length new_ids_length inserted_nth new_ids_def)

lemma insert_values_Returns:
  "vals \<noteq> [] \<Longrightarrow> list_all ok (concat (map texts vals)) \<Longrightarrow>
   insert_values (Some rows) key row ok texts vals =
     Returns (rows @ inserted (map key rows) row vals)"
  by (simp add: insert_values_def)

lemma insert_values_Nil: "insert_values tbl key row ok texts [] = Raises OperationalError"
  by (simp add: insert_values_def)

lemma collect_Returns:
  "(\<And>x. x \<in> set xs \<Longrightarrow> f x = Returns (g x)) \<Longrightarrow> collect (map f xs) = Returns (map g xs)"
  by (induction xs) (simp_all add: and_then_def)

lemma collect_Raises:
  "xs \<noteq> [] \<Longrightarrow> (\<And>x. x \<in> set xs \<Longrightarrow> f x = Raises e) \<Longrightarrow> collect (map f xs) = Raises e"
  by (cases xs) (simp_all add: and_then_def)

lemma choice_Returns: "xs \<noteq> [] \<Longrightarrow> choice xs r = Returns (xs ! (r mod length xs))"
  by (simp add: choice_def)

lemma choice_member: "xs \<noteq> [] \<Longrightarrow> xs ! (r mod length xs) \<in> set xs"
  by simp

lemma randint_one_in_four: "(randint 0 3 r = 1) = (r mod 4 = 1)"
  by (simp add: randint_def)

lemma filter_nth_all: "\<forall>k<length xs. P (xs ! k) \<Longrightarrow> filter P xs = xs"
  by (simp add: all_set_conv_all_nth)

lemma filter_nth_none: "\<forall>k<length xs. \<not> P (xs ! k) \<Longrightarrow> filter P xs = []"
  by (simp add: all_set_conv_all_nth filter_empty_conv)

lemma range_Cons: "0 < n \<Longrightarrow> [0..<nat n] = 0 # [1..<nat n]"
  by (simp add: upt_conv_Cons)

lemma upt_5: "[0..<5] = [0, 1, 2, 3, 4]"
  by (simp add: upt_rec)

lemma upt_3: "[0..<3] = [0, 1, 2]"
  by (simp add: upt_rec)

subsection \<open>Characters and pasted texts\<close>

lemma code_lower: "(of_char (ascii_lower c) :: nat) =
    (if 65 \<le> (of_char c :: nat) \<and> (of_char c :: nat) \<le> 90 then of_char c + 32 else of_char c)"
  by (simp add: ascii_lower_def Let_def)

lemma char_eq_code: "(c = d) = ((of_char c :: nat) = of_char d)"
  by (metis char_of_char)

lemma printable_lower: "printable c \<Longrightarrow> printable (ascii_lower c)"
  by (simp add: printable_def code_lower)

lemma lower_eq_sq: "ascii_lower c = sq \<longleftrightarrow> c = sq"
  by (simp add: char_eq_code [of _ sq] code_lower)

lemma lower_eq_dq: "ascii_lower c = dq \<longleftrightarrow> c = dq"
  by (simp add: char_eq_code [of _ dq] code_lower)

lemma lower_eq_backslash: "ascii_lower c = backslash \<longleftrightarrow> c = backslash"
  by (simp add: char_eq_code [of _ backslash] code_lower)

lemma lower_eq_space: "ascii_lower c = CHR '' '' \<longleftrightarrow> c = CHR '' ''"
  by (simp add: char_eq_code [of _ "CHR '' ''"] code_lower)

lemma suffix_plain: "list_all (\<lambda>c. printable c \<and> c \<noteq> backslash) ''@example.com''"
  by (simp add: printable_def)

lemma email_of_map:
  "email_of name =
     map (\<lambda>c. if c = CHR '' '' then CHR ''_'' else ascii_lower c) name @ ''@example.com''"
  by (simp add: email_of_def lower_eq_space cong: if_cong)

lemma email_chars:
  assumes "list_all (\<lambda>c. printable c \<and> c \<noteq> backslash) name"
  shows "list_all (\<lambda>c. printable c \<and> c \<noteq> backslash) (email_of name)"
proof -
  define h where "h c = (if c = CHR '' '' then CHR ''_'' else ascii_lower c)" for c
  have "printable (h c) \<and> h c \<noteq> backslash" if "printable c" "c \<noteq> backslash" for c
    using that by (simp add: h_def printable_lower lower_eq_backslash) (simp add: printable_def)
  then have "list_all (\<lambda>c. printable c \<and> c \<noteq> backslash) (map h name)"
    using assms by (simp add: list_all_iff)
  moreover have "email_of name = map h name @ ''@example.com''"
    unfolding h_def by (rule email_of_map)
  ultimately show ?thesis
    using suffix_plain by (simp only: list_all_append simp_thms)
qed

lemma email_quote:
  assumes "q = sq \<or> q = dq"
  shows "q \<in> set (email_of name) \<longleftrightarrow> q \<in> set name"
proof -
  define h where "h c = (if c = CHR '' '' then CHR ''_'' else ascii_lower c)" for c
  have h: "h c = q \<longleftrightarrow> c = q" for c
    using assms by (auto simp: h_def lower_eq_sq lower_eq_dq)
  have "q \<in> set (map h name) \<longleftrightarrow> q \<in> set name"
    unfolding set_map image_iff by (metis h)
  moreover have "q \<notin> set ''@example.com''" using assms by auto
  moreover have "email_of name = map h name @ ''@example.com''"
    unfolding h_def by (rule email_of_map)
  ultimately show ?thesis by (simp only: set_append Un_iff simp_thms)
qed

lemma stored_email: "stored_as_written name \<Longrightarrow> stored_as_written (email_of name)"
  unfolding stored_as_written_def using email_chars email_quote by blast

lemma digit_in: "digit n \<in> set ''0123456789''"
  unfolding digit_def by (rule nth_mem) simp

lemma zero_padded_digits: "c \<in> set (zero_padded w n) \<Longrightarrow> c \<in> set ''0123456789''"
proof (induction w arbitrary: n)
  case 0
  then show ?case by simp
next
  case (Suc w)
  from Suc.prems have "c \<in> set (zero_padded w (n div 10)) \<or> c = digit n"
    by (simp only: zero_padded.simps set_append set_simps Un_iff insert_iff empty_iff simp_thms)
  with Suc.IH digit_in show ?case by blast
qed

lemma zero_padded_pasted: "sq \<notin> set (zero_padded w n) \<and> nul \<notin> set (zero_padded w n)"
proof -
  have "sq \<notin> set ''0123456789''" "nul \<notin> set ''0123456789''" by simp_all
  then show ?thesis using zero_padded_digits by blast
qed

lemma str_datetime_pasted: "pasted (str_datetime d)"
proof -
  have "sq \<notin> set (str_datetime d)"
    unfolding str_datetime_def using zero_padded_pasted by (simp split: if_splits)
  moreover have "nul \<notin> set (str_datetime d)"
    unfolding str_datetime_def using zero_padded_pasted by (simp split: if_splits)
  ultimately show ?thesis by (simp add: pasted_def)
qed

lemma log_fields_logs_of:
  "log_fields (logs_of i v) = (fst v, Some (fst (snd v)), Some (fst (snd (snd v))), Some (snd (snd (snd v))))"
  by (cases v) (simp add: log_fields_def logs_of_def)

lemma login_operand_Literal: "read_as_written scope u \<Longrightarrow> login_operand scope rest u = Literal u"
  by (simp add: read_as_written_def login_operand_def)

lemma sql_eq_Some: "sql_eq a (Some y) = (a = Some y)" "sql_eq (Some x) b = (b = Some x)"
  by (auto simp: sql_eq_def split: option.splits)

lemma sql_eq_None: "sql_eq a None = False" "sql_eq None b = False"
  by (auto simp: sql_eq_def split: option.splits)

subsection \<open>Timestamps\<close>

lemma lies_within_self: "lo \<le> 0 \<Longrightarrow> 0 \<le> hi \<Longrightarrow> lies_within t lo hi t"
proof -
  assume "lo \<le> 0" "0 \<le> hi"
  then have "lo * 86400000000 \<le> 0" "0 \<le> hi * 86400000000"
    by (simp_all add: mult_le_0_iff)
  then show ?thesis by (simp add: lies_within_def)
qed

lemma not_lies_ahead_self: "0 < lo \<Longrightarrow> \<not> lies_within t lo hi t"
  by (simp add: lies_within_def)

lemma get_random_date_cases:
  "get_random_date c starts ends =
     (case date_time_between c of None \<Rightarrow> now c | Some f \<Rightarrow> f starts ends)"
  by (simp add: get_random_date_def)

lemma get_random_date_within:
  "answers_within c starts ends lo hi \<Longrightarrow> lo \<le> 0 \<Longrightarrow> 0 \<le> hi \<Longrightarrow>
   lies_within (now c) lo hi (get_random_date c starts ends)"
  by (cases "date_time_between c")
    (simp_all add: get_random_date_def answers_within_def lies_within_self)

lemma get_random_date_within_faker:
  "answers_within c starts ends lo hi \<Longrightarrow> date_time_between c \<noteq> None \<Longrightarrow>
   lies_within (now c) lo hi (get_random_date c starts ends)"
  by (cases "date_time_between c") (simp_all add: get_random_date_def answers_within_def)

lemma get_random_date_no_faker:
  "date_time_between c = None \<Longrightarrow> get_random_date c starts ends = now c"
  by (simp add: get_random_date_def)

subsection \<open>Joins and groups\<close>

lemma concat_no_key:
  "\<forall>x\<in>set xs. a \<noteq> Some (k x) \<Longrightarrow>
   concat (map (\<lambda>x. if sql_eq a (Some (k x)) then f x else []) xs) = []"
  by (induction xs) (auto simp: sql_eq_Some)

lemma concat_unique_key:
  "distinct (map k xs) \<Longrightarrow> x \<in> set xs \<Longrightarrow> a = Some (k x) \<Longrightarrow>
   concat (map (\<lambda>y. if sql_eq a (Some (k y)) then f y else []) xs) = f x"
proof (induction xs)
  case Nil
  then show ?case by simp
next
  case (Cons y xs)
  show ?case
  proof (cases "y = x")
    case True
    with Cons.prems have "\<forall>z\<in>set xs. a \<noteq> Some (k z)" by auto
    then show ?thesis using True Cons.prems(3) by (simp add: concat_no_key sql_eq_Some)
  next
    case False
    with Cons.prems have x: "x \<in> set xs" by auto
    then have "k x \<in> set (map k xs)" by simp
    with Cons.prems(1) have "k x \<noteq> k y" by auto
    with x Cons show ?thesis by (simp add: sql_eq_Some)
  qed
qed

lemma comment_rows_joined:
  assumes "distinct (map usr_id us)" "distinct (map pst_id ps)"
    and "usr \<in> set us" "cmt_author_id cmt = Some (usr_id usr)"
    and "pst \<in> set ps" "cmt_post_id cmt = Some (pst_id pst)"
  shows "comment_rows cs us ps v cmt =
     (if usr_login usr = v
      then [(v, pst_header pst, author_login us pst, comments_count cs cmt)] else [])"
proof -
  have "comment_rows cs us ps v cmt =
      concat (map (\<lambda>p. if sql_eq (cmt_post_id cmt) (Some (pst_id p))
               then (if usr_login usr = v then [(usr_login usr, pst_header p, author_login us p, comments_count cs cmt)] else [])
               else []) ps)"
    unfolding comment_rows_def using assms(1,3,4) by (rule concat_unique_key)
  also have "\<dots> = (if usr_login usr = v then [(usr_login usr, pst_header pst, author_login us pst, comments_count cs cmt)] else [])"
    using assms(2,5,6) by (rule concat_unique_key)
  finally show ?thesis by simp
qed

lemma comment_rows_unjoined:
  assumes "\<not> ((\<exists>usr\<in>set us. cmt_author_id cmt = Some (usr_id usr) \<and> usr_login usr = v) \<and>
              (\<exists>pst\<in>set ps. cmt_post_id cmt = Some (pst_id pst)))"
  shows "comment_rows cs us ps v cmt = []"
  using assms by (auto simp: comment_rows_def sql_eq_Some)

lemma author_login_cases:
  "(case author_login us pst of
      None \<Rightarrow> \<forall>w\<in>set us. pst_author_id pst \<noteq> Some (usr_id w)
    | Some x \<Rightarrow> \<exists>w\<in>set us. pst_author_id pst = Some (usr_id w) \<and> x = usr_login w)"
proof (cases "find (\<lambda>w. sql_eq (Some (usr_id w)) (pst_author_id pst)) us")
  case None
  then have "author_login us pst = None" by (simp add: author_login_def)
  moreover from None have "\<forall>w\<in>set us. pst_author_id pst \<noteq> Some (usr_id w)"
    by (auto simp: find_None_iff sql_eq_Some)
  ultimately show ?thesis by simp
next
  case (Some w)
  then have "w \<in> set us" "pst_author_id pst = Some (usr_id w)"
    by (auto simp: find_Some_iff sql_eq_Some)
  moreover from Some have "author_login us pst = Some (usr_login w)"
    by (simp add: author_login_def)
  ultimately show ?thesis by auto
qed

lemma comments_count_Some:
  "cmt_post_id cmt = Some p \<Longrightarrow>
   comments_count cs cmt = length (filter (\<lambda>c. cmt_post_id c = cmt_post_id cmt) cs)"
  by (simp add: comments_count_def sql_eq_Some)

lemma user_comments_rows:
  assumes "distinct (map usr_id us)" "distinct (map pst_id ps)"
  shows "list_all2 (\<lambda>cmt (l, h, a, n).
         l = u \<and>
         (\<exists>pst\<in>set ps. cmt_post_id cmt = Some (pst_id pst) \<and> h = pst_header pst \<and>
            (case a of None \<Rightarrow> \<forall>w\<in>set us. pst_author_id pst \<noteq> Some (usr_id w)
                     | Some x \<Rightarrow> \<exists>w\<in>set us. pst_author_id pst = Some (usr_id w) \<and> x = usr_login w)) \<and>
         n = length (filter (\<lambda>c. cmt_post_id c = cmt_post_id cmt) cs))
       (filter (\<lambda>cmt. (\<exists>usr\<in>set us. cmt_author_id cmt = Some (usr_id usr) \<and> usr_login usr = u) \<and>
                      (\<exists>pst\<in>set ps. cmt_post_id cmt = Some (pst_id pst))) xs)
       (concat (map (comment_rows cs us ps u) xs))"
proof -
  define M where "M = (\<lambda>cmt::comment_row. (\<exists>usr\<in>set us. cmt_author_id cmt = Some (usr_id usr) \<and> usr_login usr = u) \<and>
                      (\<exists>pst\<in>set ps. cmt_post_id cmt = Some (pst_id pst)))"
  define R where "R = (\<lambda>(cmt::comment_row) (l, h, a, n).
         l = u \<and>
         (\<exists>pst\<in>set ps. cmt_post_id cmt = Some (pst_id pst) \<and> h = pst_header pst \<and>
            (case a of None \<Rightarrow> \<forall>w\<in>set us. pst_author_id pst \<noteq> Some (usr_id w)
                     | Some x \<Rightarrow> \<exists>w\<in>set us. pst_author_id pst = Some (usr_id w) \<and> x = usr_login w)) \<and>
         n = length (filter (\<lambda>c. cmt_post_id c = cmt_post_id cmt) cs))"
  have one: "\<exists>row. comment_rows cs us ps u x = [row] \<and> R x row" if "M x" for x
  proof -
    from that obtain usr pst where j: "usr \<in> set us" "cmt_author_id x = Some (usr_id usr)"
      "usr_login usr = u" "pst \<in> set ps" "cmt_post_id x = Some (pst_id pst)"
      unfolding M_def by blast
    have "comment_rows cs us ps u x =
        [(u, pst_header pst, author_login us pst, comments_count cs x)]"
      using comment_rows_joined [OF assms j(1,2,4,5)] j(3) by simp
    moreover have "comments_count cs x = length (filter (\<lambda>c. cmt_post_id c = cmt_post_id x) cs)"
      using j(5) by (rule comments_count_Some)
    moreover have "R x (u, pst_header pst, author_login us pst,
        length (filter (\<lambda>c. cmt_post_id c = cmt_post_id x) cs))"
      unfolding R_def using j(4,5) author_login_cases [of us pst] by auto
    ultimately show ?thesis by simp
  qed
  have none: "comment_rows cs us ps u x = []" if "\<not> M x" for x
    using that unfolding M_def by (rule comment_rows_unjoined)
  have "list_all2 R (filter M xs) (concat (map (comment_rows cs us ps u) xs))"
  proof (induction xs)
    case Nil
    then show ?case by simp
  next
    case (Cons x xs)
    show ?case
    proof (cases "M x")
      case True
      with one obtain row where "comment_rows cs us ps u x = [row]" "R x row" by blast
      with True Cons.IH show ?thesis by simp
    next
      case False
      with none Cons.IH show ?thesis by simp
    qed
  qed
  then show ?thesis unfolding M_def R_def .
qed

lemma find_first:
  "\<forall>q\<in>set pre. \<not> P q \<Longrightarrow> P r \<Longrightarrow> find P (pre @ r # rest) = Some r"
  by (induction pre) auto

lemma one_key:
  "distinct ds \<Longrightarrow> a \<in> set ds \<Longrightarrow> (\<Sum>d\<leftarrow>ds. if a = d then (1::nat) else 0) = 1"
proof (induction ds)
  case Nil
  then show ?case by simp
next
  case (Cons d ds)
  show ?case
  proof (cases "a = d")
    case True
    with Cons.prems have "a \<notin> set ds" by simp
    then have "(\<Sum>d\<leftarrow>ds. if a = d then (1::nat) else 0) = 0" by (induction ds) auto
    with True show ?thesis by simp
  next
    case False
    with Cons show ?thesis by simp
  qed
qed

lemma groups_partition:
  "distinct ds \<Longrightarrow> f ` set xs \<subseteq> set ds \<Longrightarrow>
   (\<Sum>d\<leftarrow>ds. length (filter P (filter (\<lambda>x. f x = d) xs))) = length (filter P xs)"
proof (induction xs)
  case Nil
  then show ?case by simp
next
  case (Cons x xs)
  define g where "g d = length (filter P (filter (\<lambda>x. f x = d) xs))" for d
  define h where "h d = (if f x = d \<and> P x then (1::nat) else 0)" for d
  have step: "length (filter P (filter (\<lambda>y. f y = d) (x # xs))) = h d + g d" for d
    by (simp add: g_def h_def)
  have ih: "sum_list (map g ds) = length (filter P xs)"
    unfolding g_def using Cons by simp
  have hsum: "sum_list (map h ds) = (if P x then 1 else 0)"
  proof (cases "P x")
    case True
    have "f x \<in> set ds" using Cons.prems(2) by auto
    with Cons.prems(1) have "(\<Sum>d\<leftarrow>ds. if f x = d then (1::nat) else 0) = 1" by (rule one_key)
    moreover from True have "h = (\<lambda>d. if f x = d then (1::nat) else 0)"
      by (simp add: h_def fun_eq_iff)
    ultimately show ?thesis using True by simp
  next
    case False
    then have "h d = 0" for d by (simp add: h_def)
    then have "sum_list (map h ds) = 0" by simp
    with False show ?thesis by simp
  qed
  have "(\<Sum>d\<leftarrow>ds. length (filter P (filter (\<lambda>y. f y = d) (x # xs)))) =
        sum_list (map h ds) + sum_list (map g ds)"
    by (simp only: step sum_list_addf)
  with ih hsum show ?case by simp
qed

lemma disjoint_counts:
  "(\<And>x. \<not> (P x \<and> Q x)) \<Longrightarrow>
   length (filter P xs) + length (filter Q xs) = length (filter (\<lambda>x. P x \<or> Q x) xs)"
  by (induction xs) auto

lemma user_actions_first:
  assumes "usr_login r = u" "\<forall>q\<in>set pre. usr_login q \<noteq> u"
  shows "user_actions date_fn ls (pre @ r # rest) u =
     map (group_row date_fn (filter (\<lambda>l. lgs_user_id l = Some (usr_id r)) ls))
       (remdups (map (\<lambda>l. date_fn (lgs_datetime l))
          (filter (\<lambda>l. lgs_user_id l = Some (usr_id r)) ls)))"
proof -
  have "find (\<lambda>usr. usr_login usr = u) (pre @ r # rest) = Some r"
    using assms by (intro find_first) auto
  then show ?thesis
    by (simp add: user_actions_def first_user_id_def sql_eq_Some Let_def)
qed

lemma group_row_counts:
  "group_row date_fn (filter U ls) d =
     (d, length (filter (\<lambda>l. U l \<and> date_fn (lgs_datetime l) = d \<and> lgs_event_type_id l = Some 1) ls),
         length (filter (\<lambda>l. U l \<and> date_fn (lgs_datetime l) = d \<and> lgs_event_type_id l = Some 5) ls),
         length (filter (\<lambda>l. U l \<and> date_fn (lgs_datetime l) = d \<and>
                     (\<exists>t. lgs_space_type_id l = Some t \<and> 1 < t)) ls))"
proof -
  have "(case lgs_space_type_id l of None \<Rightarrow> False | Some t \<Rightarrow> 1 < t) =
        (\<exists>t. lgs_space_type_id l = Some t \<and> 1 < t)" for l :: logs_row
    by (cases "lgs_space_type_id l") auto
  then show ?thesis
    by (simp add: group_row_def Let_def sql_eq_Some conj_commute conj_left_commute)
qed

lemma logins_logouts_sum:
  "(\<Sum>(d, logins, logouts, actions)\<leftarrow>map (group_row date_fn mine)
        (remdups (map (\<lambda>l. date_fn (lgs_datetime l)) mine)). logins + logouts) =
   length (filter (\<lambda>l. lgs_event_type_id l = Some 1 \<or> lgs_event_type_id l = Some 5) mine)"
proof -
  define key where "key l = date_fn (lgs_datetime l)" for l :: logs_row
  define E where "E l = (lgs_event_type_id l = Some 1 \<or> lgs_event_type_id l = Some 5)" for l :: logs_row
  have row: "(case group_row date_fn mine d of (d, logins, logouts, actions) \<Rightarrow> logins + logouts) =
      length (filter E (filter (\<lambda>l. key l = d) mine))" for d
  proof -
    define g where "g = filter (\<lambda>l. key l = d) mine"
    have "length (filter (\<lambda>l. lgs_event_type_id l = Some 1) g) +
          length (filter (\<lambda>l. lgs_event_type_id l = Some 5) g) = length (filter E g)"
      unfolding E_def by (rule disjoint_counts) simp
    then show ?thesis
      unfolding g_def key_def by (simp add: group_row_def Let_def sql_eq_Some del: filter_filter)
  qed
  have "(\<Sum>d\<leftarrow>remdups (map key mine). length (filter E (filter (\<lambda>l. key l = d) mine))) =
      length (filter E mine)"
    by (rule groups_partition) auto
  then show ?thesis
    unfolding key_def [symmetric, abs_def] E_def [symmetric, abs_def]
    by (simp add: comp_def row)
qed

lemma user_comments_unknown:
  "\<forall>usr\<in>set us. usr_login usr \<noteq> u \<Longrightarrow> user_comments cs us ps u = []"
  by (auto simp: user_comments_def comment_rows_def)

lemma user_actions_unknown:
  "\<forall>usr\<in>set us. usr_login usr \<noteq> u \<Longrightarrow> user_actions date_fn ls us u = []"
proof -
  assume "\<forall>usr\<in>set us. usr_login usr \<noteq> u"
  then have "find (\<lambda>usr. usr_login usr = u) us = None" by (simp add: find_None_iff)
  then show ?thesis by (simp add: user_actions_def first_user_id_def sql_eq_None)
qed

subsection \<open>The fill functions\<close>

lemma fill_logs_login_logout_Returns:
  assumes "users s = Some us" "us \<noteq> []" "logs s = Some ls"
  shows "\<exists>new. fill_logs_login_logout clocks is_login s = Returns (s\<lparr>logs := Some (ls @ new)\<rparr>) \<and>
           length new = length us \<and>
           (\<forall>k<length us.
              lgs_datetime (new ! k) = str_datetime (get_random_date (clocks k)
                 (if is_login then ''-5d'' else ''now'') (if is_login then ''now'' else ''+5d'')) \<and>
              lgs_user_id (new ! k) = Some (usr_id (us ! k)) \<and>
              lgs_space_type_id (new ! k) = Some 1 \<and>
              lgs_event_type_id (new ! k) = Some (if is_login then 1 else 5))"
proof -
  define vals :: "log_value list" where "vals = map (\<lambda>(k, user_id).
      (str_datetime (get_random_date (clocks k)
         (fst (if is_login then (''-5d'', ''now'') else (''now'', ''+5d'')))
         (snd (if is_login then (''-5d'', ''now'') else (''now'', ''+5d'')))),
       user_id, 1, if is_login then 1 else 5))
    (zip [0..<length (map usr_id us)] (map usr_id us))"
  define new where "new = inserted (map lgs_id ls) logs_of vals"
  have len: "length vals = length us" by (simp add: vals_def)
  then have ne: "vals \<noteq> []" using assms(2) by auto
  have ok: "list_all pasted (concat (map log_texts vals))"
    by (auto simp: list_all_iff vals_def log_texts_def str_datetime_pasted)
  have run: "fill_logs_login_logout clocks is_login s = Returns (s\<lparr>logs := Some (ls @ new)\<rparr>)"
    using assms(1,3) insert_values_Returns [OF ne ok, of ls lgs_id logs_of]
    by (simp add: fill_logs_login_logout_def get_all_ids_def and_then_def Let_def vals_def new_def)
  have nth: "new ! k = logs_of (next_id (map lgs_id ls) + int k)
      (str_datetime (get_random_date (clocks k)
         (if is_login then ''-5d'' else ''now'') (if is_login then ''now'' else ''+5d'')),
       usr_id (us ! k), 1, if is_login then 1 else 5)" if "k < length us" for k
    using that len by (simp add: new_def inserted_nth) (simp add: vals_def)
  have "lgs_datetime (new ! k) = str_datetime (get_random_date (clocks k)
                 (if is_login then ''-5d'' else ''now'') (if is_login then ''now'' else ''+5d'')) \<and>
              lgs_user_id (new ! k) = Some (usr_id (us ! k)) \<and>
              lgs_space_type_id (new ! k) = Some 1 \<and>
              lgs_event_type_id (new ! k) = Some (if is_login then 1 else 5)" if "k < length us" for k
    using nth [OF that] by (simp add: logs_of_def)
  moreover have "length new = length us" by (simp add: new_def inserted_length len)
  ultimately show ?thesis using run by blast
qed

lemma login_logout_pass:
  assumes "users s = Some us" "us \<noteq> []" "logs s = Some ls"
  shows "\<exists>new. and_then (fill_logs_login_logout c1 True s) (fill_logs_login_logout c2 False) =
             Returns (s\<lparr>logs := Some (ls @ new)\<rparr>) \<and>
           length new = 2 * length us \<and>
           length (filter (\<lambda>l. lgs_event_type_id l = Some 1) new) = length us \<and>
           length (filter (\<lambda>l. lgs_event_type_id l = Some 5) new) = length us \<and>
           (\<forall>l\<in>set new. lgs_space_type_id l = Some 1)"
proof -
  from fill_logs_login_logout_Returns [OF assms, of c1 True]
  obtain n1 where a: "fill_logs_login_logout c1 True s = Returns (s\<lparr>logs := Some (ls @ n1)\<rparr>)"
    "length n1 = length us"
    "\<forall>k<length n1. lgs_space_type_id (n1 ! k) = Some 1 \<and> lgs_event_type_id (n1 ! k) = Some 1"
    by auto
  from fill_logs_login_logout_Returns [of "s\<lparr>logs := Some (ls @ n1)\<rparr>" us "ls @ n1" c2 False] assms
  obtain n2 where b: "fill_logs_login_logout c2 False (s\<lparr>logs := Some (ls @ n1)\<rparr>) =
       Returns (s\<lparr>logs := Some (ls @ n1 @ n2)\<rparr>)"
    "length n2 = length us"
    "\<forall>k<length n2. lgs_space_type_id (n2 ! k) = Some 1 \<and> lgs_event_type_id (n2 ! k) = Some 5"
    by auto
  have f1: "filter (\<lambda>l. lgs_event_type_id l = Some 1) n1 = n1"
    "filter (\<lambda>l. lgs_event_type_id l = Some 5) n1 = []"
    using a(3) by (simp_all add: filter_nth_all filter_nth_none)
  have f2: "filter (\<lambda>l. lgs_event_type_id l = Some 1) n2 = []"
    "filter (\<lambda>l. lgs_event_type_id l = Some 5) n2 = n2"
    using b(3) by (simp_all add: filter_nth_all filter_nth_none)
  have sp: "\<forall>l\<in>set (n1 @ n2). lgs_space_type_id l = Some 1"
    using a(3) b(3) by (auto simp: in_set_conv_nth)
  have "and_then (fill_logs_login_logout c1 True s) (fill_logs_login_logout c2 False) =
             Returns (s\<lparr>logs := Some (ls @ n1 @ n2)\<rparr>)"
    using a(1) b(1) by (simp add: and_then_def)
  moreover have "length (n1 @ n2) = 2 * length us" using a(2) b(2) by simp
  moreover have "length (filter (\<lambda>l. lgs_event_type_id l = Some 1) (n1 @ n2)) = length us"
    using f1 f2 a(2) by simp
  moreover have "length (filter (\<lambda>l. lgs_event_type_id l = Some 5) (n1 @ n2)) = length us"
    using f1 f2 b(2) by simp
  ultimately show ?thesis using sp by blast
qed

lemma fill_actions_Returns:
  assumes "users s = Some us" "us \<noteq> []" "logs s = Some ls"
  shows "\<exists>new. fill_actions clocks i n s = Returns (s\<lparr>logs := Some (ls @ new)\<rparr>) \<and>
           length new = 2 * n * length us \<and>
           length (filter (\<lambda>l. lgs_event_type_id l = Some 1) new) = n * length us \<and>
           length (filter (\<lambda>l. lgs_event_type_id l = Some 5) new) = n * length us \<and>
           (\<forall>l\<in>set new. lgs_space_type_id l = Some 1)"
  using assms
proof (induction n arbitrary: i s ls)
  case 0
  then have "fill_actions clocks i 0 s = Returns (s\<lparr>logs := Some (ls @ [])\<rparr>)" by simp
  then show ?case by (intro exI [of _ "[]"]) simp
next
  case (Suc n)
  from login_logout_pass [OF Suc.prems, of "clocks i True" "clocks i False"]
  obtain p where p: "and_then (fill_logs_login_logout (clocks i True) True s)
        (fill_logs_login_logout (clocks i False) False) = Returns (s\<lparr>logs := Some (ls @ p)\<rparr>)"
    "length p = 2 * length us"
    "length (filter (\<lambda>l. lgs_event_type_id l = Some 1) p) = length us"
    "length (filter (\<lambda>l. lgs_event_type_id l = Some 5) p) = length us"
    "\<forall>l\<in>set p. lgs_space_type_id l = Some 1" by blast
  from Suc.IH [of "s\<lparr>logs := Some (ls @ p)\<rparr>" "ls @ p" "Suc i"] Suc.prems
  obtain q where q: "fill_actions clocks (Suc i) n (s\<lparr>logs := Some (ls @ p)\<rparr>) =
        Returns (s\<lparr>logs := Some (ls @ p @ q)\<rparr>)"
    "length q = 2 * n * length us"
    "length (filter (\<lambda>l. lgs_event_type_id l = Some 1) q) = n * length us"
    "length (filter (\<lambda>l. lgs_event_type_id l = Some 5) q) = n * length us"
    "\<forall>l\<in>set q. lgs_space_type_id l = Some 1" by auto
  have assoc: "and_then (and_then a f) g = and_then a (\<lambda>x. and_then (f x) g)" for a :: "store outcome" and f g :: "store \<Rightarrow> store outcome"
    by (cases a) (simp_all add: and_then_def)
  have "fill_actions clocks i (Suc n) s =
     and_then (and_then (fill_logs_login_logout (clocks i True) True s)
        (fill_logs_login_logout (clocks i False) False)) (fill_actions clocks (Suc i) n)"
    by (simp add: assoc)
  also have "\<dots> = Returns (s\<lparr>logs := Some (ls @ p @ q)\<rparr>)"
    using p(1) q(1) by (simp add: and_then_def)
  finally have "fill_actions clocks i (Suc n) s = Returns (s\<lparr>logs := Some (ls @ p @ q)\<rparr>)" .
  moreover have "length (p @ q) = 2 * Suc n * length us" using p(2) q(2) by simp
  moreover have "length (filter (\<lambda>l. lgs_event_type_id l = Some 1) (p @ q)) = Suc n * length us"
    using p(3) q(3) by simp
  moreover have "length (filter (\<lambda>l. lgs_event_type_id l = Some 5) (p @ q)) = Suc n * length us"
    using p(4) q(4) by simp
  moreover have "\<forall>l\<in>set (p @ q). lgs_space_type_id l = Some 1" using p(5) q(5) by auto
  ultimately show ?case by blast
qed

section \<open>The claims\<close>

subsection \<open>Schema creation\<close>

lemma create_tables_fresh: "create_tables fresh_store = (None, seeded_store)"
  by (simp add: create_tables_def fresh_store_def create_table_def insert_event_types_def
      insert_space_types_def named_rows_def inserted_def new_ids_Nil upt_5 upt_3
      seeded_store_def)

lemma create_tables_again:
  assumes "users s \<noteq> None"
  shows "create_tables s = (Some OperationalError, s)"
proof -
  have "create_table users f s = Inl OperationalError" for f
    using assms by (simp add: create_table_def)
  then show ?thesis by (simp add: create_tables_def)
qed

text \<open>
  \<^bold>\<open>C6.\<close>  On new files, \<open>create_tables\<close> ends without error and leaves five tables
  empty, \<open>event_type\<close> with the five rows login, comment, create_post, delete_post, logout
  under the ids 1 to 5 in this order, and \<open>space_type\<close> with global, blog, post under the
  ids 1 to 3.  On a store in which \<open>main.users\<close> exists, as in every store on which it has
  run before, \<open>create_tables\<close> raises \<open>OperationalError\<close> at its first statement and leaves
  every table as it was; fill mode catches the error, prints \<open>Tables already exist\<close> and
  goes on exactly as a run without \<open>--create-tables\<close>.
\<close>

theorem create_tables_seeds_once:
  "(\<exists>s1. create_tables fresh_store = (None, s1) \<and>
      event_type s1 = Some [\<lparr>typ_id = 1, typ_name = ''login''\<rparr>,
        \<lparr>typ_id = 2, typ_name = ''comment''\<rparr>, \<lparr>typ_id = 3, typ_name = ''create_post''\<rparr>,
        \<lparr>typ_id = 4, typ_name = ''delete_post''\<rparr>, \<lparr>typ_id = 5, typ_name = ''logout''\<rparr>] \<and>
      space_type s1 = Some [\<lparr>typ_id = 1, typ_name = ''global''\<rparr>,
        \<lparr>typ_id = 2, typ_name = ''blog''\<rparr>, \<lparr>typ_id = 3, typ_name = ''post''\<rparr>] \<and>
      users s1 = Some [] \<and> blog s1 = Some [] \<and> post s1 = Some [] \<and> comment s1 = Some [] \<and>
      logs s1 = Some []) \<and>
   (\<forall>s. users s \<noteq> None \<longrightarrow>
      create_tables s = (Some OperationalError, s) \<and>
      (\<forall>args d. main_fill (args\<lparr>arg_create_tables := True\<rparr>) d s =
         (''Tables already exist'' # fst (main_fill (args\<lparr>arg_create_tables := False\<rparr>) d s),
          snd (main_fill (args\<lparr>arg_create_tables := False\<rparr>) d s))))"
proof -
  have "\<exists>s1. create_tables fresh_store = (None, s1) \<and>
      event_type s1 = Some [\<lparr>typ_id = 1, typ_name = ''login''\<rparr>,
        \<lparr>typ_id = 2, typ_name = ''comment''\<rparr>, \<lparr>typ_id = 3, typ_name = ''create_post''\<rparr>,
        \<lparr>typ_id = 4, typ_name = ''delete_post''\<rparr>, \<lparr>typ_id = 5, typ_name = ''logout''\<rparr>] \<and>
      space_type s1 = Some [\<lparr>typ_id = 1, typ_name = ''global''\<rparr>,
        \<lparr>typ_id = 2, typ_name = ''blog''\<rparr>, \<lparr>typ_id = 3, typ_name = ''post''\<rparr>] \<and>
      users s1 = Some [] \<and> blog s1 = Some [] \<and> post s1 = Some [] \<and> comment s1 = Some [] \<and>
      logs s1 = Some []"
    by (simp add: create_tables_fresh) (simp add: seeded_store_def)
  moreover have "main_fill (args\<lparr>arg_create_tables := True\<rparr>) d s =
         (''Tables already exist'' # fst (main_fill (args\<lparr>arg_create_tables := False\<rparr>) d s),
          snd (main_fill (args\<lparr>arg_create_tables := False\<rparr>) d s))"
    if "users s \<noteq> None" for s args d
    using that by (simp add: main_fill_def create_tables_again)
  ultimately show ?thesis using create_tables_again by blast
qed

text \<open>The second call, on the store the first call made.\<close>

theorem create_tables_seeds_once_witness:
  "create_tables fresh_store = (None, seeded_store) \<and>
   create_tables seeded_store = (Some OperationalError, seeded_store) \<and>
   main_fill \<lparr>arg_create_tables = True, arg_users_count = None, arg_blogs_count = None,
       arg_posts_count = None, arg_comments_count = None, arg_actions_count = None\<rparr>
     example_draws seeded_store = ([''Tables already exist''], Returns seeded_store)"
proof -
  have u: "users seeded_store \<noteq> None" by (simp add: seeded_store_def)
  have rest: "main_fill \<lparr>arg_create_tables = False, arg_users_count = None,
       arg_blogs_count = None, arg_posts_count = None, arg_comments_count = None,
       arg_actions_count = None\<rparr> example_draws seeded_store = ([], Returns seeded_store)"
    by (simp add: main_fill_def when_given_def and_then_def)
  from create_tables_seeds_once u
  have "create_tables seeded_store = (Some OperationalError, seeded_store)"
    and "main_fill (\<lparr>arg_create_tables = False, arg_users_count = None,
       arg_blogs_count = None, arg_posts_count = None, arg_comments_count = None,
       arg_actions_count = None\<rparr>\<lparr>arg_create_tables := True\<rparr>) example_draws seeded_store =
       (''Tables already exist'' # fst (main_fill (\<lparr>arg_create_tables = False,
          arg_users_count = None, arg_blogs_count = None, arg_posts_count = None,
          arg_comments_count = None, arg_actions_count = None\<rparr>
            \<lparr>arg_create_tables := False\<rparr>) example_draws seeded_store),
        snd (main_fill (\<lparr>arg_create_tables = False, arg_users_count = None,
          arg_blogs_count = None, arg_posts_count = None, arg_comments_count = None,
          arg_actions_count = None\<rparr>\<lparr>arg_create_tables := False\<rparr>) example_draws seeded_store))"
    by blast+
  with rest show ?thesis by (simp add: create_tables_fresh)
qed

subsection \<open>Fills without parent rows\<close>

lemma fill_blogs_no_users:
  "users s = Some [] \<Longrightarrow>
   fill_blogs draw n s = Raises (if 0 < n then IndexError else OperationalError)"
  by (simp add: fill_blogs_def get_all_ids_def and_then_def blog_values_def choice_def
      range_Cons insert_values_Nil)

lemma fill_posts_no_users:
  "users s = Some [] \<Longrightarrow> blog s \<noteq> None \<Longrightarrow>
   fill_posts draw n s = Raises (if 0 < n then IndexError else OperationalError)"
  by (auto simp: fill_posts_def get_all_ids_def and_then_def post_values_def choice_def
      range_Cons insert_values_Nil)

lemma fill_posts_no_blogs:
  "users s \<noteq> None \<Longrightarrow> blog s = Some [] \<Longrightarrow>
   fill_posts draw n s = Raises (if 0 < n then IndexError else OperationalError)"
  by (auto simp: fill_posts_def get_all_ids_def and_then_def post_values_def choice_def
      range_Cons insert_values_Nil)

lemma fill_comments_no_users:
  "users s = Some [] \<Longrightarrow> post s \<noteq> None \<Longrightarrow>
   fill_comments draw n s = Raises (if 0 < n then IndexError else OperationalError)"
  by (auto simp: fill_comments_def get_all_ids_def and_then_def comment_values_def choice_def
      range_Cons insert_values_Nil)

lemma fill_comments_no_posts:
  "users s \<noteq> None \<Longrightarrow> post s = Some [] \<Longrightarrow>
   fill_comments draw n s = Raises (if 0 < n then IndexError else OperationalError)"
  by (auto simp: fill_comments_def get_all_ids_def and_then_def comment_values_def choice_def
      range_Cons insert_values_Nil)

lemma fill_logs_no_users:
  "users s = Some [] \<Longrightarrow> fill_logs_login_logout clocks is_login s = Raises OperationalError"
  by (simp add: fill_logs_login_logout_def get_all_ids_def and_then_def insert_values_Nil)

lemma main_fill_blogs_first:
  "n \<noteq> 0 \<Longrightarrow> fill_blogs (drawn_blogs d) n s = Raises e \<Longrightarrow>
   main_fill \<lparr>arg_create_tables = False, arg_users_count = None, arg_blogs_count = Some n,
      arg_posts_count = p, arg_comments_count = c, arg_actions_count = a\<rparr> d s =
   ([], Raises e)"
  by (simp add: main_fill_def when_given_def and_then_def)

text \<open>
  \<^bold>\<open>C3\<close>, as amended.  No fill function guards against an empty parent table, and
  fill mode catches no exception of a fill.  With \<open>users\<close> empty, \<open>fill_blogs\<close>,
  \<open>fill_posts\<close> and \<open>fill_comments\<close> raise \<open>IndexError\<close> (from \<open>random.choice\<close> on the empty
  id list) when the count is positive and \<open>OperationalError\<close> (from the empty \<open>VALUES\<close>
  list) otherwise, and \<open>fill_logs_login_logout\<close> raises \<open>OperationalError\<close>; the same
  holds for \<open>fill_posts\<close> with \<open>blog\<close> empty and \<open>fill_comments\<close> with \<open>post\<close> empty.  None of
  them returns, so no row is inserted, and a run of fill mode that reaches such a fill
  ends with that exception.
\<close>

theorem fills_raise_without_parents:
  "(users s = Some [] \<longrightarrow>
      fill_blogs bd n s = Raises (if 0 < n then IndexError else OperationalError) \<and>
      (blog s \<noteq> None \<longrightarrow>
         fill_posts pd n s = Raises (if 0 < n then IndexError else OperationalError)) \<and>
      (post s \<noteq> None \<longrightarrow>
         fill_comments cd n s = Raises (if 0 < n then IndexError else OperationalError)) \<and>
      fill_logs_login_logout clocks is_login s = Raises OperationalError \<and>
      (n \<noteq> 0 \<longrightarrow>
         main_fill \<lparr>arg_create_tables = False, arg_users_count = None,
            arg_blogs_count = Some n, arg_posts_count = p, arg_comments_count = c,
            arg_actions_count = a\<rparr> d s =
         ([], Raises (if 0 < n then IndexError else OperationalError)))) \<and>
   (users s \<noteq> None \<and> blog s = Some [] \<longrightarrow>
      fill_posts pd n s = Raises (if 0 < n then IndexError else OperationalError)) \<and>
   (users s \<noteq> None \<and> post s = Some [] \<longrightarrow>
      fill_comments cd n s = Raises (if 0 < n then IndexError else OperationalError))"
proof -
  have "main_fill \<lparr>arg_create_tables = False, arg_users_count = None,
            arg_blogs_count = Some n, arg_posts_count = p, arg_comments_count = c,
            arg_actions_count = a\<rparr> d s =
         ([], Raises (if 0 < n then IndexError else OperationalError))"
    if "users s = Some []" "n \<noteq> 0"
    using that(2) fill_blogs_no_users [OF that(1)] by (rule main_fill_blogs_first)
  then show ?thesis
    using fill_blogs_no_users fill_posts_no_users fill_posts_no_blogs fill_comments_no_users
      fill_comments_no_posts fill_logs_no_users by blast
qed

text \<open>Every fill on the store that \<open>create_tables\<close> has just made.\<close>

theorem fills_raise_without_parents_witness:
  "users seeded_store = Some [] \<and>
   fill_posts (drawn_posts example_draws) 2 seeded_store = Raises IndexError \<and>
   fill_comments (drawn_comments example_draws) 2 seeded_store = Raises IndexError \<and>
   fill_logs_login_logout (drawn_clocks example_draws 0 True) True seeded_store =
     Raises OperationalError \<and>
   fill_blogs (drawn_blogs example_draws) (- 1) seeded_store = Raises OperationalError"
proof -
  have s: "users seeded_store = Some []" "blog seeded_store \<noteq> None"
    "post seeded_store \<noteq> None"
    by (simp_all add: seeded_store_def)
  from fills_raise_without_parents
    [of seeded_store "drawn_blogs example_draws" 2 "drawn_posts example_draws"
      "drawn_comments example_draws" "drawn_clocks example_draws 0 True" True] s
  have "fill_posts (drawn_posts example_draws) 2 seeded_store = Raises IndexError"
    "fill_comments (drawn_comments example_draws) 2 seeded_store = Raises IndexError"
    "fill_logs_login_logout (drawn_clocks example_draws 0 True) True seeded_store =
       Raises OperationalError"
    by simp_all
  moreover from fills_raise_without_parents
    [of seeded_store "drawn_blogs example_draws" "- 1"] s
  have "fill_blogs (drawn_blogs example_draws) (- 1) seeded_store = Raises OperationalError"
    by simp
  ultimately show ?thesis using s by simp
qed

text \<open>
  The claim as stated fails: on the store that \<open>create_tables\<close> has just made,
  \<open>fill_blogs 1\<close> raises \<open>IndexError\<close>, and fill mode with \<open>--blogs-count 1\<close> ends with it.
\<close>

theorem fill_blogs_without_users_counterexample:
  "users seeded_store = Some [] \<and>
   fill_blogs (drawn_blogs example_draws) 1 seeded_store = Raises IndexError \<and>
   main_fill \<lparr>arg_create_tables = False, arg_users_count = None, arg_blogs_count = Some 1,
      arg_posts_count = None, arg_comments_count = None, arg_actions_count = None\<rparr>
     example_draws seeded_store = ([], Raises IndexError)"
proof -
  have s: "users seeded_store = Some []" by (simp add: seeded_store_def)
  have b: "fill_blogs (drawn_blogs example_draws) 1 seeded_store = Raises IndexError"
    using fill_blogs_no_users [OF s, of "drawn_blogs example_draws" 1] by simp
  have "main_fill \<lparr>arg_create_tables = False, arg_users_count = None, arg_blogs_count = Some 1,
      arg_posts_count = None, arg_comments_count = None, arg_actions_count = None\<rparr>
     example_draws seeded_store = ([], Raises IndexError)"
    using b by (intro main_fill_blogs_first) simp_all
  with s b show ?thesis by simp
qed

subsection \<open>\<open>fill_users\<close>\<close>

lemma stored_names:
  assumes "\<forall>i<n. stored_as_written (f i)"
  shows "list_all stored_as_written
           (concat (map (\<lambda>v. [fst v, snd v]) (zip (map email_of (map f [0..<n])) (map f [0..<n]))))"
proof -
  have "stored_as_written t"
    if "t \<in> set (concat (map (\<lambda>v. [fst v, snd v])
          (zip (map email_of (map f [0..<n])) (map f [0..<n]))))" for t
  proof -
    from that obtain v where v: "v \<in> set (zip (map email_of (map f [0..<n])) (map f [0..<n]))"
      and t: "t = fst v \<or> t = snd v" by auto
    from v obtain i where "i < n" "v = (email_of (f i), f i)"
      by (auto simp: set_zip)
    with t assms show ?thesis by (auto intro: stored_email)
  qed
  then show ?thesis by (simp only: list_all_iff) blast
qed

lemma get_name_nonempty: "faker \<noteq> Some [] \<Longrightarrow> get_name faker \<noteq> []"
  by (cases faker) (simp_all add: get_name_def)

lemma fill_users_nonpositive:
  "n \<le> 0 \<Longrightarrow> fill_users faker n s = Raises OperationalError"
  by (simp add: fill_users_def insert_values_Nil and_then_def)

text \<open>
  \<^bold>\<open>C4\<close>, as amended.  For every count \<open>n \<ge> 1\<close>, on a store with a \<open>users\<close> table, when no
  generated name is empty and each is stored as written (printable ASCII without a
  backslash and not holding both kinds of quote), \<open>fill_users n\<close> returns and has appended
  exactly \<open>n\<close> rows, with ids that are new and distinct; the \<open>i\<close>-th has the \<open>i\<close>-th
  generated name as its login, which is not empty, and as its email the login in lower
  case with every space replaced by \<open>_\<close>, followed by \<open>@example.com\<close>.
\<close>

theorem fill_users_inserts:
  assumes "0 < n" and "users s = Some rows"
    and "\<forall>i<nat n. faker i \<noteq> Some [] \<and> stored_as_written (get_name (faker i))"
  shows "\<exists>new. fill_users faker n s = Returns (s\<lparr>users := Some (rows @ new)\<rparr>) \<and>
           length new = nat n \<and> distinct (map usr_id new) \<and>
           set (map usr_id new) \<inter> set (map usr_id rows) = {} \<and>
           (\<forall>i<nat n. usr_login (new ! i) = get_name (faker i) \<and> usr_login (new ! i) \<noteq> [] \<and>
              usr_email (new ! i) = Some (email_of (usr_login (new ! i))))"
proof -
  define logins where "logins = map (\<lambda>i. get_name (faker i)) [0..<nat n]"
  define vals where "vals = zip (map email_of logins) logins"
  define new where "new = inserted (map usr_id rows) users_of vals"
  have len: "length vals = nat n" by (simp add: vals_def logins_def)
  then have ne: "vals \<noteq> []" using assms(1) by auto
  have ok: "list_all stored_as_written (concat (map (\<lambda>v. [fst v, snd v]) vals))"
    unfolding vals_def logins_def using assms(3) by (intro stored_names) simp
  have run: "fill_users faker n s = Returns (s\<lparr>users := Some (rows @ new)\<rparr>)"
    using insert_values_Returns [OF ne ok, of rows usr_id users_of] assms(2)
    by (simp add: fill_users_def Let_def and_then_def vals_def logins_def new_def)
  have keys: "map usr_id new = new_ids (map usr_id rows) (nat n)"
    unfolding new_def using inserted_keys [of usr_id users_of "map usr_id rows" vals] len
    by (simp add: users_of_def)
  have nth: "new ! i = users_of (next_id (map usr_id rows) + int i)
      (email_of (get_name (faker i)), get_name (faker i))" if "i < nat n" for i
    using that len by (simp add: new_def inserted_nth) (simp add: vals_def logins_def)
  have "usr_login (new ! i) = get_name (faker i) \<and> usr_login (new ! i) \<noteq> [] \<and>
        usr_email (new ! i) = Some (email_of (usr_login (new ! i)))" if "i < nat n" for i
    using nth [OF that] assms(3) that by (simp add: users_of_def get_name_nonempty)
  moreover have "length new = nat n" by (simp add: new_def inserted_length len)
  moreover have "distinct (map usr_id new)" by (simp add: keys new_ids_distinct)
  moreover have "set (map usr_id new) \<inter> set (map usr_id rows) = {}"
    by (simp only: keys new_ids_fresh)
  ultimately show ?thesis using run by blast
qed

text \<open>Two users from the built-in name, added to the three of the example store.\<close>

theorem fill_users_inserts_witness:
  "\<exists>new. fill_users (drawn_names example_draws) 2 example_store =
           Returns (example_store\<lparr>users := Some (example_users @ new)\<rparr>) \<and>
         length new = 2 \<and>
         usr_login (new ! 1) = ''User Name'' \<and>
         usr_email (new ! 1) = Some (email_of ''User Name'') \<and>
         email_of ''User Name'' = ''user_name@example.com''"
proof -
  have names: "\<forall>i<nat 2. drawn_names example_draws i \<noteq> Some [] \<and>
      stored_as_written (get_name (drawn_names example_draws i))"
    by (simp add: example_draws_def get_name_def stored_as_written_def printable_def)
  have u: "users example_store = Some example_users"
    by (simp add: example_store_def)
  have e: "email_of ''User Name'' = ''user_name@example.com''"
    by code_simp
  from fill_users_inserts [of 2 example_store example_users "drawn_names example_draws", OF _ u names]
  obtain new where "fill_users (drawn_names example_draws) 2 example_store =
      Returns (example_store\<lparr>users := Some (example_users @ new)\<rparr>)"
    "length new = nat 2"
    "\<forall>i<nat 2. usr_login (new ! i) = get_name (drawn_names example_draws i) \<and>
       usr_email (new ! i) = Some (email_of (usr_login (new ! i)))"
    by auto
  moreover from this(3) have "usr_login (new ! 1) = ''User Name'' \<and>
       usr_email (new ! 1) = Some (email_of ''User Name'')"
    by (simp add: example_draws_def get_name_def)
  ultimately show ?thesis using e by auto
qed

text \<open>
  The claim as stated fails at \<open>N = 0\<close>: the statement is then
  \<open>INSERT INTO main.users (email, login) VALUES ;\<close> and the call raises.
\<close>

theorem fill_users_zero_counterexample:
  "fill_users (drawn_names example_draws) 0 seeded_store = Raises OperationalError"
  by (rule fill_users_nonpositive) simp

subsection \<open>\<open>fill_blogs\<close>\<close>

text \<open>
  \<^bold>\<open>C9.\<close>  For every \<open>K \<ge> 1\<close> and every store with at least one user (and a \<open>blog\<close> table),
  when the generated texts hold no single quote, \<open>fill_blogs K\<close> returns and has appended
  exactly \<open>K\<close> rows to \<open>blog\<close>; the owner of each is the id of a row of \<open>users\<close> as that
  table stands in the store the call is given (the ids are read by the call itself).
  The \<open>i\<close>-th owner is the id at the index that the \<open>i\<close>-th random draw gives, each draw
  ranging over the whole list anew, so that an id can be drawn again.  That the draws
  are uniform is a property of \<open>random.choice\<close> and not of this program; it is not
  stated here.
\<close>

theorem fill_blogs_owners:
  assumes "0 < K" "users s = Some us" "us \<noteq> []" "blog s = Some bs"
    and "\<forall>i<nat K. pasted (get_sentence (bd_sentence (draw i))) \<and>
                     pasted (get_description (bd_description (draw i)))"
  shows "\<exists>new. fill_blogs draw K s = Returns (s\<lparr>blog := Some (bs @ new)\<rparr>) \<and>
           length new = nat K \<and>
           (\<forall>b\<in>set new. \<exists>usr\<in>set us. blg_owner_id b = Some (usr_id usr)) \<and>
           (\<forall>i<nat K. blg_owner_id (new ! i) =
              Some (usr_id (us ! (bd_owner (draw i) mod length us))))"
proof -
  define ids where "ids = map usr_id us"
  define val where "val i = (ids ! (bd_owner (draw i) mod length ids),
      get_sentence (bd_sentence (draw i)), get_description (bd_description (draw i)))" for i
  define vals where "vals = map val [0..<nat K]"
  define new where "new = inserted (map blg_id bs) blog_of vals"
  have ids: "ids \<noteq> []" using assms(3) by (simp add: ids_def)
  have len: "length vals = nat K" by (simp add: vals_def)
  then have ne: "vals \<noteq> []" using assms(1) by auto
  have "collect (map (\<lambda>i. blog_values ids (draw i)) [0..<nat K]) = Returns (map val [0..<nat K])"
    by (rule collect_Returns) (simp add: blog_values_def choice_Returns [OF ids] and_then_def val_def)
  moreover have ok: "list_all pasted
       (concat (map (\<lambda>v. case v of (owner, name, description) \<Rightarrow> [name, description]) vals))"
    using assms(5) by (auto simp: list_all_iff vals_def val_def)
  ultimately have run: "fill_blogs draw K s = Returns (s\<lparr>blog := Some (bs @ new)\<rparr>)"
    using assms(2,4) insert_values_Returns [OF ne ok, of bs blg_id blog_of]
    by (simp add: fill_blogs_def get_all_ids_def and_then_def ids_def [symmetric]
        vals_def [symmetric] new_def)
  have nth: "blg_owner_id (new ! i) = Some (usr_id (us ! (bd_owner (draw i) mod length us)))"
    if "i < nat K" for i
  proof -
    have "bd_owner (draw i) mod length us < length us" using assms(3) by simp
    then show ?thesis
      using that len by (simp add: new_def inserted_nth)
        (simp add: vals_def val_def blog_of_def ids_def)
  qed
  have lnew: "length new = nat K" by (simp add: new_def inserted_length len)
  have "\<exists>usr\<in>set us. blg_owner_id b = Some (usr_id usr)" if "b \<in> set new" for b
  proof -
    from that lnew obtain i where "i < nat K" "b = new ! i" by (auto simp: in_set_conv_nth)
    with nth have "blg_owner_id b = Some (usr_id (us ! (bd_owner (draw i) mod length us)))" by simp
    moreover have "us ! (bd_owner (draw i) mod length us) \<in> set us"
      using assms(3) by (rule choice_member)
    ultimately show ?thesis by blast
  qed
  with run lnew nth show ?thesis by blast
qed

text \<open>Two blogs for the example store: the owners are the first and the second user.\<close>

theorem fill_blogs_owners_witness:
  "\<exists>new. fill_blogs (drawn_blogs example_draws) 2 example_store =
           Returns (example_store\<lparr>blog := Some
             ([\<lparr>blg_id = 1, blg_owner_id = Some 1, blg_name = ''Blog'',
                 blg_description = None\<rparr>] @ new)\<rparr>) \<and>
         length new = 2 \<and> blg_owner_id (new ! 0) = Some 1 \<and> blg_owner_id (new ! 1) = Some 2"
proof -
  have u: "users example_store = Some example_users" "example_users \<noteq> []"
    and b: "blog example_store = Some [\<lparr>blg_id = 1, blg_owner_id = Some 1,
        blg_name = ''Blog'', blg_description = None\<rparr>]"
    by (simp_all add: example_store_def example_users_def)
  have texts: "\<forall>i<nat 2. pasted (get_sentence (bd_sentence (drawn_blogs example_draws i))) \<and>
      pasted (get_description (bd_description (drawn_blogs example_draws i)))"
    by (simp add: example_draws_def get_sentence_def get_description_def pasted_def)
  from fill_blogs_owners [of 2 example_store example_users _ "drawn_blogs example_draws",
      OF _ u b texts]
  obtain new where "fill_blogs (drawn_blogs example_draws) 2 example_store =
        Returns (example_store\<lparr>blog := Some
             ([\<lparr>blg_id = 1, blg_owner_id = Some 1, blg_name = ''Blog'',
                 blg_description = None\<rparr>] @ new)\<rparr>)"
    "length new = nat 2"
    "\<forall>i<nat 2. blg_owner_id (new ! i) =
        Some (usr_id (example_users ! (bd_owner (drawn_blogs example_draws i) mod
          length example_users)))"
    by auto
  moreover from this(3) have "blg_owner_id (new ! 0) = Some 1 \<and> blg_owner_id (new ! 1) = Some 2"
    by (simp add: example_draws_def example_users_def)
  ultimately show ?thesis by auto
qed

subsection \<open>\<open>fill_posts\<close>\<close>

lemma seeded_names:
  "name_of (event_type (snd (create_tables fresh_store))) 1 = Some ''login''"
  "name_of (event_type (snd (create_tables fresh_store))) 2 = Some ''comment''"
  "name_of (event_type (snd (create_tables fresh_store))) 3 = Some ''create_post''"
  "name_of (event_type (snd (create_tables fresh_store))) 4 = Some ''delete_post''"
  "name_of (event_type (snd (create_tables fresh_store))) 5 = Some ''logout''"
  "name_of (space_type (snd (create_tables fresh_store))) 1 = Some ''global''"
  "name_of (space_type (snd (create_tables fresh_store))) 2 = Some ''blog''"
  "name_of (space_type (snd (create_tables fresh_store))) 3 = Some ''post''"
  by (simp_all add: create_tables_fresh seeded_store_def name_of_def)

lemma fill_posts_Returns:
  assumes "0 < n" "users s = Some us" "us \<noteq> []" "blog s = Some bs" "bs \<noteq> []"
    and "post s = Some ps" "logs s = Some ls"
    and "\<forall>i<nat n. pasted (get_sentence (pd_sentence (draw i))) \<and>
                     pasted (get_description (pd_description (draw i)))"
  shows "\<exists>new_posts new_logs.
     fill_posts draw n s =
       Returns (s\<lparr>post := Some (ps @ new_posts), logs := Some (ls @ new_logs)\<rparr>) \<and>
     length new_posts = nat n \<and>
     (\<forall>i<nat n. pst_author_id (new_posts ! i) =
        Some (usr_id (us ! (pd_user (draw i) mod length us)))) \<and>
     map log_fields new_logs = concat (map (\<lambda>i.
        (str_datetime (get_random_date (pd_created (draw i)) ''-2d'' ''now''),
         pst_author_id (new_posts ! i), Some 2, Some 3) #
        (if pd_randint (draw i) mod 4 = 1
         then [(str_datetime (get_random_date (pd_deleted (draw i)) ''+1d'' ''+4d''),
                pst_author_id (new_posts ! i), Some 2, Some 4)]
         else [])) [0..<nat n])"
proof -
  define uids where "uids = map usr_id us"
  define bids where "bids = map blg_id bs"
  define val :: "nat \<Rightarrow> post_value \<times> log_value list" where "val i =
     ((get_sentence (pd_sentence (draw i)), get_description (pd_description (draw i)),
       uids ! (pd_user (draw i) mod length uids), bids ! (pd_blog (draw i) mod length bids)),
        [(str_datetime (get_random_date (pd_created (draw i)) ''-2d'' ''now''),
          uids ! (pd_user (draw i) mod length uids), 2, 3)] @
        (if randint 0 3 (pd_randint (draw i)) = 1
         then [(str_datetime (get_random_date (pd_deleted (draw i)) ''+1d'' ''+4d''),
                uids ! (pd_user (draw i) mod length uids), 2, 4)]
         else []))" for i
  define vals where "vals = map val [0..<nat n]"
  define new_posts where "new_posts = inserted (map pst_id ps) post_of (map fst vals)"
  define new_logs where "new_logs = inserted (map lgs_id ls) logs_of (concat (map snd vals))"
  have uids: "uids \<noteq> []" and bids: "bids \<noteq> []"
    using assms(3,5) by (simp_all add: uids_def bids_def)
  have len: "length vals = nat n" by (simp add: vals_def)
  then have ne: "map fst vals \<noteq> []" using assms(1) by auto
  have "val 0 \<in> set vals" using assms(1) by (auto simp: vals_def)
  moreover have "snd (val 0) \<noteq> []" by (simp add: val_def)
  ultimately have nel: "concat (map snd vals) \<noteq> []" by force
  have col: "collect (map (\<lambda>i. post_values uids bids (draw i)) [0..<nat n]) = Returns vals"
    unfolding vals_def
    by (rule collect_Returns)
      (simp add: post_values_def choice_Returns [OF uids] choice_Returns [OF bids]
        and_then_def val_def)
  have ok: "list_all pasted
       (concat (map (\<lambda>v. case v of (header, txt, author_id, blog_id) \<Rightarrow> [header, txt])
          (map fst vals)))"
    using assms(8) by (auto simp: list_all_iff vals_def val_def)
  have okl: "list_all pasted (concat (map log_texts (concat (map snd vals))))"
    by (auto simp: list_all_iff vals_def val_def log_texts_def str_datetime_pasted)
  have run: "fill_posts draw n s =
       Returns (s\<lparr>post := Some (ps @ new_posts), logs := Some (ls @ new_logs)\<rparr>)"
    using assms(2,4,6,7) col
      insert_values_Returns [OF ne ok, of ps pst_id post_of]
      insert_values_Returns [OF nel okl, of ls lgs_id logs_of]
    by (simp add: fill_posts_def get_all_ids_def and_then_def uids_def [symmetric]
        bids_def [symmetric] new_posts_def new_logs_def)
  have lnew: "length new_posts = nat n" by (simp add: new_posts_def inserted_length len)
  have author: "pst_author_id (new_posts ! i) = Some (uids ! (pd_user (draw i) mod length uids))"
    if "i < nat n" for i
    using that len by (simp add: new_posts_def inserted_nth)
      (simp add: vals_def val_def post_of_def)
  have author_us: "pst_author_id (new_posts ! i) =
      Some (usr_id (us ! (pd_user (draw i) mod length us)))" if "i < nat n" for i
  proof -
    have "pd_user (draw i) mod length us < length us" using assms(3) by simp
    then show ?thesis using author [OF that] by (simp add: uids_def)
  qed
  have "map log_fields new_logs =
      map (\<lambda>v. (fst v, Some (fst (snd v)), Some (fst (snd (snd v))), Some (snd (snd (snd v)))))
        (concat (map snd vals))"
    unfolding new_logs_def by (rule inserted_map) (rule log_fields_logs_of)
  also have "\<dots> = concat (map (\<lambda>i.
        map (\<lambda>v. (fst v, Some (fst (snd v)), Some (fst (snd (snd v))), Some (snd (snd (snd v)))))
          (snd (val i))) [0..<nat n])"
    by (simp add: map_concat vals_def comp_def)
  also have "\<dots> = concat (map (\<lambda>i.
        (str_datetime (get_random_date (pd_created (draw i)) ''-2d'' ''now''),
         pst_author_id (new_posts ! i), Some 2, Some 3) #
        (if pd_randint (draw i) mod 4 = 1
         then [(str_datetime (get_random_date (pd_deleted (draw i)) ''+1d'' ''+4d''),
                pst_author_id (new_posts ! i), Some 2, Some 4)]
         else [])) [0..<nat n])"
    by (rule arg_cong [where f = concat], rule map_cong)
      (simp_all add: val_def author randint_one_in_four)
  finally show ?thesis using run lnew author_us by blast
qed

text \<open>
  \<^bold>\<open>C5\<close>, as amended.  For every count \<open>n \<ge> 1\<close>, on a store with users and blogs, when the
  generated texts hold no single quote, \<open>fill_posts n\<close> returns and has appended \<open>n\<close> posts
  and, for the \<open>i\<close>-th of them, in this order: one log row for the post's author with
  \<open>space_type_id\<close> 2 and \<open>event_type_id\<close> 3, and, when \<open>random.randint(0, 3)\<close> is 1 (one of
  its four values), a second log row for the same author with \<open>space_type_id\<close> 2 and
  \<open>event_type_id\<close> 4.  In the lookup tables that \<open>create_tables\<close> seeds, space type 2 is
  \<open>blog\<close> (not \<open>post\<close>, which is 3) and the event types 3 and 4 are \<open>create_post\<close> and
  \<open>delete_post\<close>.  The timestamp of either row is the current time when faker is not
  installed and faker's answer for the window otherwise, \<open>-2d\<close> to \<open>now\<close> for the first row
  and \<open>+1d\<close> to \<open>+4d\<close> for the second.  So the first timestamp lies between 2 days in the
  past and now, faker keeping to the window it is asked for; the second lies between 1
  and 4 days in the future when faker is installed and keeps to its window, and does
  not when faker is not installed: it is the current time.
\<close>

theorem fill_posts_logs:
  assumes "0 < n" "users s = Some us" "us \<noteq> []" "blog s = Some bs" "bs \<noteq> []"
    and "post s = Some ps" "logs s = Some ls"
    and "\<forall>i<nat n. pasted (get_sentence (pd_sentence (draw i))) \<and>
                     pasted (get_description (pd_description (draw i)))"
  shows "(\<exists>new_posts new_logs created deleted.
     fill_posts draw n s =
       Returns (s\<lparr>post := Some (ps @ new_posts), logs := Some (ls @ new_logs)\<rparr>) \<and>
     length new_posts = nat n \<and>
     (\<forall>i<nat n. pst_author_id (new_posts ! i) =
        Some (usr_id (us ! (pd_user (draw i) mod length us)))) \<and>
     map log_fields new_logs = concat (map (\<lambda>i.
        (str_datetime (created i), pst_author_id (new_posts ! i), Some 2, Some 3) #
        (if pd_randint (draw i) mod 4 = 1
         then [(str_datetime (deleted i), pst_author_id (new_posts ! i), Some 2, Some 4)]
         else [])) [0..<nat n]) \<and>
     (\<forall>i.
        created i = (case date_time_between (pd_created (draw i)) of
                       None \<Rightarrow> now (pd_created (draw i))
                     | Some f \<Rightarrow> f ''-2d'' ''now'') \<and>
        (answers_within (pd_created (draw i)) ''-2d'' ''now'' (- 2) 0 \<longrightarrow>
         lies_within (now (pd_created (draw i))) (- 2) 0 (created i)) \<and>
        deleted i = (case date_time_between (pd_deleted (draw i)) of
                       None \<Rightarrow> now (pd_deleted (draw i))
                     | Some f \<Rightarrow> f ''+1d'' ''+4d'') \<and>
        (date_time_between (pd_deleted (draw i)) \<noteq> None \<and>
         answers_within (pd_deleted (draw i)) ''+1d'' ''+4d'' 1 4 \<longrightarrow>
         lies_within (now (pd_deleted (draw i))) 1 4 (deleted i)) \<and>
        (date_time_between (pd_deleted (draw i)) = None \<longrightarrow>
         deleted i = now (pd_deleted (draw i)) \<and>
         \<not> lies_within (now (pd_deleted (draw i))) 1 4 (deleted i)))) \<and>
     name_of (space_type (snd (create_tables fresh_store))) 2 = Some ''blog'' \<and>
     name_of (event_type (snd (create_tables fresh_store))) 3 = Some ''create_post'' \<and>
     name_of (event_type (snd (create_tables fresh_store))) 4 = Some ''delete_post''"
proof -
  define created where "created = (\<lambda>i. get_random_date (pd_created (draw i)) ''-2d'' ''now'')"
  define deleted where "deleted = (\<lambda>i. get_random_date (pd_deleted (draw i)) ''+1d'' ''+4d'')"
  from fill_posts_Returns [OF assms]
  obtain new_posts new_logs where r:
    "fill_posts draw n s =
       Returns (s\<lparr>post := Some (ps @ new_posts), logs := Some (ls @ new_logs)\<rparr>)"
    "length new_posts = nat n"
    "\<forall>i<nat n. pst_author_id (new_posts ! i) =
        Some (usr_id (us ! (pd_user (draw i) mod length us)))"
    "map log_fields new_logs = concat (map (\<lambda>i.
        (str_datetime (created i), pst_author_id (new_posts ! i), Some 2, Some 3) #
        (if pd_randint (draw i) mod 4 = 1
         then [(str_datetime (deleted i), pst_author_id (new_posts ! i), Some 2, Some 4)]
         else [])) [0..<nat n])"
    unfolding created_def deleted_def by blast
  have c1: "created i = (case date_time_between (pd_created (draw i)) of
                       None \<Rightarrow> now (pd_created (draw i))
                     | Some f \<Rightarrow> f ''-2d'' ''now'')" for i
    unfolding created_def by (rule get_random_date_cases)
  have c2: "answers_within (pd_created (draw i)) ''-2d'' ''now'' (- 2) 0 \<longrightarrow>
         lies_within (now (pd_created (draw i))) (- 2) 0 (created i)" for i
    unfolding created_def by (simp add: get_random_date_within)
  have d1: "deleted i = (case date_time_between (pd_deleted (draw i)) of
                       None \<Rightarrow> now (pd_deleted (draw i))
                     | Some f \<Rightarrow> f ''+1d'' ''+4d'')" for i
    unfolding deleted_def by (rule get_random_date_cases)
  have d2: "date_time_between (pd_deleted (draw i)) \<noteq> None \<and>
         answers_within (pd_deleted (draw i)) ''+1d'' ''+4d'' 1 4 \<longrightarrow>
         lies_within (now (pd_deleted (draw i))) 1 4 (deleted i)" for i
    unfolding deleted_def using get_random_date_within_faker by blast
  have d3: "date_time_between (pd_deleted (draw i)) = None \<longrightarrow>
         deleted i = now (pd_deleted (draw i)) \<and>
         \<not> lies_within (now (pd_deleted (draw i))) 1 4 (deleted i)" for i
    unfolding deleted_def by (simp add: get_random_date_no_faker not_lies_ahead_self)
  have stamps: "\<forall>i.
        created i = (case date_time_between (pd_created (draw i)) of
                       None \<Rightarrow> now (pd_created (draw i))
                     | Some f \<Rightarrow> f ''-2d'' ''now'') \<and>
        (answers_within (pd_created (draw i)) ''-2d'' ''now'' (- 2) 0 \<longrightarrow>
         lies_within (now (pd_created (draw i))) (- 2) 0 (created i)) \<and>
        deleted i = (case date_time_between (pd_deleted (draw i)) of
                       None \<Rightarrow> now (pd_deleted (draw i))
                     | Some f \<Rightarrow> f ''+1d'' ''+4d'') \<and>
        (date_time_between (pd_deleted (draw i)) \<noteq> None \<and>
         answers_within (pd_deleted (draw i)) ''+1d'' ''+4d'' 1 4 \<longrightarrow>
         lies_within (now (pd_deleted (draw i))) 1 4 (deleted i)) \<and>
        (date_time_between (pd_deleted (draw i)) = None \<longrightarrow>
         deleted i = now (pd_deleted (draw i)) \<and>
         \<not> lies_within (now (pd_deleted (draw i))) 1 4 (deleted i))"
    using c1 c2 d1 d2 d3 by (intro allI conjI)
  from r stamps have "\<exists>new_posts new_logs created deleted.
     fill_posts draw n s =
       Returns (s\<lparr>post := Some (ps @ new_posts), logs := Some (ls @ new_logs)\<rparr>) \<and>
     length new_posts = nat n \<and>
     (\<forall>i<nat n. pst_author_id (new_posts ! i) =
        Some (usr_id (us ! (pd_user (draw i) mod length us)))) \<and>
     map log_fields new_logs = concat (map (\<lambda>i.
        (str_datetime (created i), pst_author_id (new_posts ! i), Some 2, Some 3) #
        (if pd_randint (draw i) mod 4 = 1
         then [(str_datetime (deleted i), pst_author_id (new_posts ! i), Some 2, Some 4)]
         else [])) [0..<nat n]) \<and>
     (\<forall>i.
        created i = (case date_time_between (pd_created (draw i)) of
                       None \<Rightarrow> now (pd_created (draw i))
                     | Some f \<Rightarrow> f ''-2d'' ''now'') \<and>
        (answers_within (pd_created (draw i)) ''-2d'' ''now'' (- 2) 0 \<longrightarrow>
         lies_within (now (pd_created (draw i))) (- 2) 0 (created i)) \<and>
        deleted i = (case date_time_between (pd_deleted (draw i)) of
                       None \<Rightarrow> now (pd_deleted (draw i))
                     | Some f \<Rightarrow> f ''+1d'' ''+4d'') \<and>
        (date_time_between (pd_deleted (draw i)) \<noteq> None \<and>
         answers_within (pd_deleted (draw i)) ''+1d'' ''+4d'' 1 4 \<longrightarrow>
         lies_within (now (pd_deleted (draw i))) 1 4 (deleted i)) \<and>
        (date_time_between (pd_deleted (draw i)) = None \<longrightarrow>
         deleted i = now (pd_deleted (draw i)) \<and>
         \<not> lies_within (now (pd_deleted (draw i))) 1 4 (deleted i)))"
    by (intro exI conjI)
  then show ?thesis using seeded_names(3,4,7) by (intro conjI)
qed


text \<open>
  Two posts for the example store; the second draw of \<open>randint\<close> is 1, so the second post
  gets the \<open>delete_post\<close> row as well.  With faker installed the rows carry faker's
  answers, which lie in their windows; without faker they all carry the current time,
  which does not lie 1 to 4 days ahead.
\<close>

theorem fill_posts_logs_witness:
  "(\<exists>new_posts new_logs.
     fill_posts faker_posts 2 example_store =
       Returns (example_store\<lparr>post := Some (example_posts @ new_posts),
         logs := Some (example_logs @ new_logs)\<rparr>) \<and>
     length new_posts = 2 \<and>
     map pst_author_id new_posts = [Some 1, Some 2] \<and>
     map log_fields new_logs =
       [(''2024-05-16 20:15:00'', Some 1, Some 2, Some 3),
        (''2024-05-16 20:15:00'', Some 2, Some 2, Some 3),
        (''2024-05-19 12:00:00'', Some 2, Some 2, Some 4)]) \<and>
   lies_within (now faker_clock) (- 2) 0 (example_faker ''-2d'' ''now'') \<and>
   lies_within (now faker_clock) 1 4 (example_faker ''+1d'' ''+4d'') \<and>
   (\<exists>new_posts new_logs.
     fill_posts (drawn_posts example_draws) 2 example_store =
       Returns (example_store\<lparr>post := Some (example_posts @ new_posts),
         logs := Some (example_logs @ new_logs)\<rparr>) \<and>
     length new_posts = 2 \<and>
     map pst_author_id new_posts = [Some 1, Some 2] \<and>
     map log_fields new_logs =
       [(''2024-05-17 09:30:00'', Some 1, Some 2, Some 3),
        (''2024-05-17 09:30:00'', Some 2, Some 2, Some 3),
        (''2024-05-17 09:30:00'', Some 2, Some 2, Some 4)]) \<and>
   lies_within (now example_clock) (- 2) 0 (now example_clock) \<and>
   \<not> lies_within (now example_clock) 1 4 (now example_clock)"
proof -
  have s: "users example_store = Some example_users" "example_users \<noteq> []"
    "blog example_store = Some [\<lparr>blg_id = 1, blg_owner_id = Some 1,
        blg_name = ''Blog'', blg_description = None\<rparr>]"
    "[\<lparr>blg_id = 1, blg_owner_id = Some 1, blg_name = ''Blog'',
        blg_description = None\<rparr>] \<noteq> []"
    "post example_store = Some example_posts" "logs example_store = Some example_logs"
    by (simp_all add: example_store_def example_users_def)
  have pos: "(0::int) < 2" by simp
  have two: "[0..<2] = [0, 1::nat]" by (simp add: upt_rec)
  have authors: "map pst_author_id new_posts = [Some 1, Some 2]"
    if "length new_posts = nat 2" "pst_author_id (new_posts ! 0) = Some 1"
      "pst_author_id (new_posts ! 1) = Some 2" for new_posts :: "post_row list"
  proof -
    from that(1) have "new_posts = [new_posts ! 0, new_posts ! 1]"
      by (intro nth_equalityI) (auto simp: less_Suc_eq numeral_2_eq_2)
    then have "map pst_author_id new_posts =
        [pst_author_id (new_posts ! 0), pst_author_id (new_posts ! 1)]"
      by (metis list.simps(8,9))
    with that(2,3) show ?thesis by simp
  qed
  have with_faker: "(\<exists>new_posts new_logs.
     fill_posts faker_posts 2 example_store =
       Returns (example_store\<lparr>post := Some (example_posts @ new_posts),
         logs := Some (example_logs @ new_logs)\<rparr>) \<and>
     length new_posts = 2 \<and>
     map pst_author_id new_posts = [Some 1, Some 2] \<and>
     map log_fields new_logs =
       [(''2024-05-16 20:15:00'', Some 1, Some 2, Some 3),
        (''2024-05-16 20:15:00'', Some 2, Some 2, Some 3),
        (''2024-05-19 12:00:00'', Some 2, Some 2, Some 4)]) \<and>
   lies_within (now faker_clock) (- 2) 0 (example_faker ''-2d'' ''now'') \<and>
   lies_within (now faker_clock) 1 4 (example_faker ''+1d'' ''+4d'')"
  proof -
    have texts: "\<forall>i<nat 2. pasted (get_sentence (pd_sentence (faker_posts i))) \<and>
        pasted (get_description (pd_description (faker_posts i)))"
      by (simp add: faker_posts_def get_sentence_def get_description_def pasted_def)
    have fp: "pd_created (faker_posts i) = faker_clock" "pd_deleted (faker_posts i) = faker_clock"
      "pd_randint (faker_posts i) = i" "pd_user (faker_posts i) = i" for i
      by (simp_all add: faker_posts_def)
    have f: "date_time_between faker_clock = Some example_faker"
      by (simp add: faker_clock_def)
    have w: "answers_within faker_clock ''-2d'' ''now'' (- 2) 0"
      "answers_within faker_clock ''+1d'' ''+4d'' 1 4"
      by code_simp+
    have stamp: "str_datetime (example_faker ''-2d'' ''now'') = ''2024-05-16 20:15:00''"
      "str_datetime (example_faker ''+1d'' ''+4d'') = ''2024-05-19 12:00:00''"
      by code_simp+
    from fill_posts_logs [of 2 example_store example_users _ example_posts example_logs
        faker_posts, OF pos s texts]
    have "\<exists>new_posts new_logs created deleted.
      fill_posts faker_posts 2 example_store =
        Returns (example_store\<lparr>post := Some (example_posts @ new_posts),
          logs := Some (example_logs @ new_logs)\<rparr>) \<and>
      length new_posts = nat 2 \<and>
      (\<forall>i<nat 2. pst_author_id (new_posts ! i) =
         Some (usr_id (example_users ! (pd_user (faker_posts i) mod length example_users)))) \<and>
      map log_fields new_logs = concat (map (\<lambda>i.
         (str_datetime (created i), pst_author_id (new_posts ! i), Some 2, Some 3) #
         (if pd_randint (faker_posts i) mod 4 = 1
          then [(str_datetime (deleted i), pst_author_id (new_posts ! i), Some 2, Some 4)]
          else [])) [0..<nat 2]) \<and>
      (\<forall>i.
         created i = (case date_time_between (pd_created (faker_posts i)) of
                        None \<Rightarrow> now (pd_created (faker_posts i))
                      | Some f \<Rightarrow> f ''-2d'' ''now'') \<and>
         (answers_within (pd_created (faker_posts i)) ''-2d'' ''now'' (- 2) 0 \<longrightarrow>
          lies_within (now (pd_created (faker_posts i))) (- 2) 0 (created i)) \<and>
         deleted i = (case date_time_between (pd_deleted (faker_posts i)) of
                        None \<Rightarrow> now (pd_deleted (faker_posts i))
                      | Some f \<Rightarrow> f ''+1d'' ''+4d'') \<and>
         (date_time_between (pd_deleted (faker_posts i)) \<noteq> None \<and>
          answers_within (pd_deleted (faker_posts i)) ''+1d'' ''+4d'' 1 4 \<longrightarrow>
          lies_within (now (pd_deleted (faker_posts i))) 1 4 (deleted i)) \<and>
         (date_time_between (pd_deleted (faker_posts i)) = None \<longrightarrow>
          deleted i = now (pd_deleted (faker_posts i)) \<and>
          \<not> lies_within (now (pd_deleted (faker_posts i))) 1 4 (deleted i)))"
      by (rule conjunct1)
    then obtain new_posts new_logs created deleted where r:
      "fill_posts faker_posts 2 example_store =
        Returns (example_store\<lparr>post := Some (example_posts @ new_posts),
          logs := Some (example_logs @ new_logs)\<rparr>)"
      "length new_posts = nat 2"
      "\<forall>i<nat 2. pst_author_id (new_posts ! i) =
         Some (usr_id (example_users ! (pd_user (faker_posts i) mod length example_users)))"
      "map log_fields new_logs = concat (map (\<lambda>i.
         (str_datetime (created i), pst_author_id (new_posts ! i), Some 2, Some 3) #
         (if pd_randint (faker_posts i) mod 4 = 1
          then [(str_datetime (deleted i), pst_author_id (new_posts ! i), Some 2, Some 4)]
          else [])) [0..<nat 2])"
      "\<forall>i.
         created i = (case date_time_between (pd_created (faker_posts i)) of
                        None \<Rightarrow> now (pd_created (faker_posts i))
                      | Some f \<Rightarrow> f ''-2d'' ''now'') \<and>
         (answers_within (pd_created (faker_posts i)) ''-2d'' ''now'' (- 2) 0 \<longrightarrow>
          lies_within (now (pd_created (faker_posts i))) (- 2) 0 (created i)) \<and>
         deleted i = (case date_time_between (pd_deleted (faker_posts i)) of
                        None \<Rightarrow> now (pd_deleted (faker_posts i))
                      | Some f \<Rightarrow> f ''+1d'' ''+4d'') \<and>
         (date_time_between (pd_deleted (faker_posts i)) \<noteq> None \<and>
          answers_within (pd_deleted (faker_posts i)) ''+1d'' ''+4d'' 1 4 \<longrightarrow>
          lies_within (now (pd_deleted (faker_posts i))) 1 4 (deleted i)) \<and>
         (date_time_between (pd_deleted (faker_posts i)) = None \<longrightarrow>
          deleted i = now (pd_deleted (faker_posts i)) \<and>
          \<not> lies_within (now (pd_deleted (faker_posts i))) 1 4 (deleted i))"
      by (elim exE conjE)
    from r(3) have a: "pst_author_id (new_posts ! 0) = Some 1"
      "pst_author_id (new_posts ! 1) = Some 2"
      by (simp_all add: fp example_users_def)
    from r(5) have c: "created i = example_faker ''-2d'' ''now''"
      "deleted i = example_faker ''+1d'' ''+4d''" for i
      by (simp_all add: fp f)
    from r(5) [rule_format, of 0] w
    have b: "lies_within (now faker_clock) (- 2) 0 (example_faker ''-2d'' ''now'')"
      "lies_within (now faker_clock) 1 4 (example_faker ''+1d'' ''+4d'')"
      by (simp_all add: fp f c)
    from r(4) have "map log_fields new_logs =
       [(''2024-05-16 20:15:00'', Some 1, Some 2, Some 3),
        (''2024-05-16 20:15:00'', Some 2, Some 2, Some 3),
        (''2024-05-19 12:00:00'', Some 2, Some 2, Some 4)]"
      using a by (simp add: two fp c stamp)
    moreover from r(2) have "length new_posts = 2" by simp
    ultimately have "fill_posts faker_posts 2 example_store =
       Returns (example_store\<lparr>post := Some (example_posts @ new_posts),
         logs := Some (example_logs @ new_logs)\<rparr>) \<and>
     length new_posts = 2 \<and>
     map pst_author_id new_posts = [Some 1, Some 2] \<and>
     map log_fields new_logs =
       [(''2024-05-16 20:15:00'', Some 1, Some 2, Some 3),
        (''2024-05-16 20:15:00'', Some 2, Some 2, Some 3),
        (''2024-05-19 12:00:00'', Some 2, Some 2, Some 4)]"
      using r(1) authors [OF r(2) a] by simp
    then have "\<exists>new_posts new_logs. fill_posts faker_posts 2 example_store =
       Returns (example_store\<lparr>post := Some (example_posts @ new_posts),
         logs := Some (example_logs @ new_logs)\<rparr>) \<and>
     length new_posts = 2 \<and>
     map pst_author_id new_posts = [Some 1, Some 2] \<and>
     map log_fields new_logs =
       [(''2024-05-16 20:15:00'', Some 1, Some 2, Some 3),
        (''2024-05-16 20:15:00'', Some 2, Some 2, Some 3),
        (''2024-05-19 12:00:00'', Some 2, Some 2, Some 4)]"
      by (intro exI)
    with b show ?thesis by (intro conjI)
  qed
  have without_faker: "(\<exists>new_posts new_logs.
     fill_posts (drawn_posts example_draws) 2 example_store =
       Returns (example_store\<lparr>post := Some (example_posts @ new_posts),
         logs := Some (example_logs @ new_logs)\<rparr>) \<and>
     length new_posts = 2 \<and>
     map pst_author_id new_posts = [Some 1, Some 2] \<and>
     map log_fields new_logs =
       [(''2024-05-17 09:30:00'', Some 1, Some 2, Some 3),
        (''2024-05-17 09:30:00'', Some 2, Some 2, Some 3),
        (''2024-05-17 09:30:00'', Some 2, Some 2, Some 4)]) \<and>
   lies_within (now example_clock) (- 2) 0 (now example_clock) \<and>
   \<not> lies_within (now example_clock) 1 4 (now example_clock)"
  proof -
    have texts: "\<forall>i<nat 2. pasted (get_sentence (pd_sentence (drawn_posts example_draws i))) \<and>
        pasted (get_description (pd_description (drawn_posts example_draws i)))"
      by (simp add: example_draws_def get_sentence_def get_description_def pasted_def)
    have fp: "pd_created (drawn_posts example_draws i) = example_clock"
      "pd_deleted (drawn_posts example_draws i) = example_clock"
      "pd_randint (drawn_posts example_draws i) = i"
      "pd_user (drawn_posts example_draws i) = i" for i
      by (simp_all add: example_draws_def)
    have f: "date_time_between example_clock = None"
      by (simp add: example_clock_def)
    have w: "answers_within example_clock ''-2d'' ''now'' (- 2) 0"
      by (simp add: answers_within_def f)
    have stamp: "str_datetime (now example_clock) = ''2024-05-17 09:30:00''"
      by code_simp
    from fill_posts_logs [of 2 example_store example_users _ example_posts example_logs
        "drawn_posts example_draws", OF pos s texts]
    have "\<exists>new_posts new_logs created deleted.
      fill_posts (drawn_posts example_draws) 2 example_store =
        Returns (example_store\<lparr>post := Some (example_posts @ new_posts),
          logs := Some (example_logs @ new_logs)\<rparr>) \<and>
      length new_posts = nat 2 \<and>
      (\<forall>i<nat 2. pst_author_id (new_posts ! i) =
         Some (usr_id (example_users !
           (pd_user (drawn_posts example_draws i) mod length example_users)))) \<and>
      map log_fields new_logs = concat (map (\<lambda>i.
         (str_datetime (created i), pst_author_id (new_posts ! i), Some 2, Some 3) #
         (if pd_randint (drawn_posts example_draws i) mod 4 = 1
          then [(str_datetime (deleted i), pst_author_id (new_posts ! i), Some 2, Some 4)]
          else [])) [0..<nat 2]) \<and>
      (\<forall>i.
         created i = (case date_time_between (pd_created (drawn_posts example_draws i)) of
                        None \<Rightarrow> now (pd_created (drawn_posts example_draws i))
                      | Some f \<Rightarrow> f ''-2d'' ''now'') \<and>
         (answers_within (pd_created (drawn_posts example_draws i)) ''-2d'' ''now'' (- 2) 0 \<longrightarrow>
          lies_within (now (pd_created (drawn_posts example_draws i))) (- 2) 0 (created i)) \<and>
         deleted i = (case date_time_between (pd_deleted (drawn_posts example_draws i)) of
                        None \<Rightarrow> now (pd_deleted (drawn_posts example_draws i))
                      | Some f \<Rightarrow> f ''+1d'' ''+4d'') \<and>
         (date_time_between (pd_deleted (drawn_posts example_draws i)) \<noteq> None \<and>
          answers_within (pd_deleted (drawn_posts example_draws i)) ''+1d'' ''+4d'' 1 4 \<longrightarrow>
          lies_within (now (pd_deleted (drawn_posts example_draws i))) 1 4 (deleted i)) \<and>
         (date_time_between (pd_deleted (drawn_posts example_draws i)) = None \<longrightarrow>
          deleted i = now (pd_deleted (drawn_posts example_draws i)) \<and>
          \<not> lies_within (now (pd_deleted (drawn_posts example_draws i))) 1 4 (deleted i)))"
      by (rule conjunct1)
    then obtain new_posts new_logs created deleted where r:
      "fill_posts (drawn_posts example_draws) 2 example_store =
        Returns (example_store\<lparr>post := Some (example_posts @ new_posts),
          logs := Some (example_logs @ new_logs)\<rparr>)"
      "length new_posts = nat 2"
      "\<forall>i<nat 2. pst_author_id (new_posts ! i) =
         Some (usr_id (example_users !
           (pd_user (drawn_posts example_draws i) mod length example_users)))"
      "map log_fields new_logs = concat (map (\<lambda>i.
         (str_datetime (created i), pst_author_id (new_posts ! i), Some 2, Some 3) #
         (if pd_randint (drawn_posts example_draws i) mod 4 = 1
          then [(str_datetime (deleted i), pst_author_id (new_posts ! i), Some 2, Some 4)]
          else [])) [0..<nat 2])"
      "\<forall>i.
         created i = (case date_time_between (pd_created (drawn_posts example_draws i)) of
                        None \<Rightarrow> now (pd_created (drawn_posts example_draws i))
                      | Some f \<Rightarrow> f ''-2d'' ''now'') \<and>
         (answers_within (pd_created (drawn_posts example_draws i)) ''-2d'' ''now'' (- 2) 0 \<longrightarrow>
          lies_within (now (pd_created (drawn_posts example_draws i))) (- 2) 0 (created i)) \<and>
         deleted i = (case date_time_between (pd_deleted (drawn_posts example_draws i)) of
                        None \<Rightarrow> now (pd_deleted (drawn_posts example_draws i))
                      | Some f \<Rightarrow> f ''+1d'' ''+4d'') \<and>
         (date_time_between (pd_deleted (drawn_posts example_draws i)) \<noteq> None \<and>
          answers_within (pd_deleted (drawn_posts example_draws i)) ''+1d'' ''+4d'' 1 4 \<longrightarrow>
          lies_within (now (pd_deleted (drawn_posts example_draws i))) 1 4 (deleted i)) \<and>
         (date_time_between (pd_deleted (drawn_posts example_draws i)) = None \<longrightarrow>
          deleted i = now (pd_deleted (drawn_posts example_draws i)) \<and>
          \<not> lies_within (now (pd_deleted (drawn_posts example_draws i))) 1 4 (deleted i))"
      by (elim exE conjE)
    from r(3) have a: "pst_author_id (new_posts ! 0) = Some 1"
      "pst_author_id (new_posts ! 1) = Some 2"
      by (simp_all add: fp example_users_def)
    from r(5) have c: "created i = now example_clock" "deleted i = now example_clock" for i
      by (simp_all add: fp f)
    from r(5) [rule_format, of 0] w
    have b: "lies_within (now example_clock) (- 2) 0 (now example_clock)"
      "\<not> lies_within (now example_clock) 1 4 (now example_clock)"
      by (simp_all add: fp f c)
    from r(4) have "map log_fields new_logs =
       [(''2024-05-17 09:30:00'', Some 1, Some 2, Some 3),
        (''2024-05-17 09:30:00'', Some 2, Some 2, Some 3),
        (''2024-05-17 09:30:00'', Some 2, Some 2, Some 4)]"
      using a by (simp add: two fp c stamp)
    moreover from r(2) have "length new_posts = 2" by simp
    ultimately have "fill_posts (drawn_posts example_draws) 2 example_store =
       Returns (example_store\<lparr>post := Some (example_posts @ new_posts),
         logs := Some (example_logs @ new_logs)\<rparr>) \<and>
     length new_posts = 2 \<and>
     map pst_author_id new_posts = [Some 1, Some 2] \<and>
     map log_fields new_logs =
       [(''2024-05-17 09:30:00'', Some 1, Some 2, Some 3),
        (''2024-05-17 09:30:00'', Some 2, Some 2, Some 3),
        (''2024-05-17 09:30:00'', Some 2, Some 2, Some 4)]"
      using r(1) authors [OF r(2) a] by simp
    then have "\<exists>new_posts new_logs. fill_posts (drawn_posts example_draws) 2 example_store =
       Returns (example_store\<lparr>post := Some (example_posts @ new_posts),
         logs := Some (example_logs @ new_logs)\<rparr>) \<and>
     length new_posts = 2 \<and>
     map pst_author_id new_posts = [Some 1, Some 2] \<and>
     map log_fields new_logs =
       [(''2024-05-17 09:30:00'', Some 1, Some 2, Some 3),
        (''2024-05-17 09:30:00'', Some 2, Some 2, Some 3),
        (''2024-05-17 09:30:00'', Some 2, Some 2, Some 4)]"
      by (intro exI)
    with b show ?thesis by (intro conjI)
  qed
  from with_faker without_faker show ?thesis by (intro conjI) (elim conjE, assumption)+
qed

text \<open>
  The claim as stated fails.  The log rows that go with a new post have \<open>space_type_id\<close>
  2, which is \<open>blog\<close> in the lookup table, where the claim says \<open>post\<close>.  And without faker
  the \<open>delete_post\<close> row carries the current time, which is not 1 to 4 days in the future.
\<close>

theorem fill_posts_space_counterexample:
  "fill_posts (drawn_posts example_draws) 2 example_store =
     Returns (example_store\<lparr>
       post := Some (example_posts @
         [\<lparr>pst_id = 3, pst_header = ''Random sentence'', pst_text = Some ''Random description'',
            pst_author_id = Some 1, pst_blog_id = Some 1\<rparr>,
          \<lparr>pst_id = 4, pst_header = ''Random sentence'', pst_text = Some ''Random description'',
            pst_author_id = Some 2, pst_blog_id = Some 1\<rparr>]),
       logs := Some (example_logs @
         [\<lparr>lgs_id = 6, lgs_datetime = ''2024-05-17 09:30:00'', lgs_user_id = Some 1,
            lgs_space_type_id = Some 2, lgs_event_type_id = Some 3\<rparr>,
          \<lparr>lgs_id = 7, lgs_datetime = ''2024-05-17 09:30:00'', lgs_user_id = Some 2,
            lgs_space_type_id = Some 2, lgs_event_type_id = Some 3\<rparr>,
          \<lparr>lgs_id = 8, lgs_datetime = ''2024-05-17 09:30:00'', lgs_user_id = Some 2,
            lgs_space_type_id = Some 2, lgs_event_type_id = Some 4\<rparr>])\<rparr>) \<and>
   name_of (space_type example_store) 2 = Some ''blog'' \<and>
   name_of (space_type example_store) 3 = Some ''post'' \<and>
   name_of (event_type example_store) 3 = Some ''create_post'' \<and>
   name_of (event_type example_store) 4 = Some ''delete_post'' \<and>
   date_time_between example_clock = None \<and>
   str_datetime (now example_clock) = ''2024-05-17 09:30:00'' \<and>
   \<not> lies_within (now example_clock) 1 4 (now example_clock)"
  by code_simp

subsection \<open>\<open>fill_logs_login_logout\<close>\<close>

lemma main_fill_actions_only:
  "m \<noteq> 0 \<Longrightarrow>
   main_fill \<lparr>arg_create_tables = False, arg_users_count = None, arg_blogs_count = None,
      arg_posts_count = None, arg_comments_count = None, arg_actions_count = Some m\<rparr> d s =
   ([], fill_actions (drawn_clocks d) 0 (nat m) s)"
  by (simp add: main_fill_def when_given_def and_then_def)

text \<open>
  \<^bold>\<open>C8.\<close>  On a store with the tables \<open>users\<close> and \<open>logs\<close>, one call of
  \<open>fill_logs_login_logout\<close> appends exactly one log row for each row of \<open>users\<close>, in the
  order of the table: the user's id, \<open>space_type_id\<close> 1 (global) and \<open>event_type_id\<close> 1
  (login) when \<open>is_login\<close> holds, 5 (logout) when it does not.  The timestamp of the row is
  the current time when faker is not installed and faker's answer for the window
  otherwise, \<open>-5d\<close> to \<open>now\<close> for a login and \<open>now\<close> to \<open>+5d\<close> for a logout; so it lies
  between 5 days ago and now for a login and between now and 5 days ahead for a logout,
  faker keeping to the window it is asked for.  (With no user there is no row to append:
  the statement has an empty \<open>VALUES\<close> list and the call raises.)  So fill mode with
  \<open>--actions-count m\<close>, which makes a login fill and a logout fill \<open>m\<close> times, appends \<open>m\<close>
  times the number of users rows of each kind, all with space global.
\<close>

theorem login_logout_per_user:
  assumes "users s = Some us" "logs s = Some ls"
  shows "(us = [] \<longrightarrow> fill_logs_login_logout clocks is_login s = Raises OperationalError) \<and>
     (us \<noteq> [] \<longrightarrow>
        (\<exists>new. fill_logs_login_logout clocks is_login s =
                 Returns (s\<lparr>logs := Some (ls @ new)\<rparr>) \<and>
           length new = length us \<and>
           (\<forall>k<length us.
              (\<exists>t. lgs_datetime (new ! k) = str_datetime t \<and>
                 t = (case date_time_between (clocks k) of
                        None \<Rightarrow> now (clocks k)
                      | Some f \<Rightarrow> if is_login then f ''-5d'' ''now'' else f ''now'' ''+5d'') \<and>
                 (answers_within (clocks k) (if is_login then ''-5d'' else ''now'')
                    (if is_login then ''now'' else ''+5d'')
                    (if is_login then - 5 else 0) (if is_login then 0 else 5) \<longrightarrow>
                  lies_within (now (clocks k))
                    (if is_login then - 5 else 0) (if is_login then 0 else 5) t)) \<and>
              lgs_user_id (new ! k) = Some (usr_id (us ! k)) \<and>
              lgs_space_type_id (new ! k) = Some 1 \<and>
              lgs_event_type_id (new ! k) = Some (if is_login then 1 else 5))) \<and>
        (0 < m \<longrightarrow>
           (\<exists>new. main_fill \<lparr>arg_create_tables = False, arg_users_count = None,
                    arg_blogs_count = None, arg_posts_count = None,
                    arg_comments_count = None, arg_actions_count = Some m\<rparr> d s =
                  ([], Returns (s\<lparr>logs := Some (ls @ new)\<rparr>)) \<and>
              length new = 2 * nat m * length us \<and>
              length (filter (\<lambda>l. lgs_event_type_id l = Some 1) new) = nat m * length us \<and>
              length (filter (\<lambda>l. lgs_event_type_id l = Some 5) new) = nat m * length us \<and>
              (\<forall>l\<in>set new. lgs_space_type_id l = Some 1)))) \<and>
     name_of (event_type (snd (create_tables fresh_store))) 1 = Some ''login'' \<and>
     name_of (event_type (snd (create_tables fresh_store))) 5 = Some ''logout'' \<and>
     name_of (space_type (snd (create_tables fresh_store))) 1 = Some ''global''"
proof -
  have none: "fill_logs_login_logout clocks is_login s = Raises OperationalError" if "us = []"
    using that assms(1) by (simp add: fill_logs_no_users)
  have stamp: "\<exists>t. str_datetime (get_random_date c
          (if is_login then ''-5d'' else ''now'') (if is_login then ''now'' else ''+5d'')) =
        str_datetime t \<and>
      t = (case date_time_between c of
             None \<Rightarrow> now c
           | Some f \<Rightarrow> if is_login then f ''-5d'' ''now'' else f ''now'' ''+5d'') \<and>
      (answers_within c (if is_login then ''-5d'' else ''now'')
          (if is_login then ''now'' else ''+5d'')
          (if is_login then - 5 else 0) (if is_login then 0 else 5) \<longrightarrow>
       lies_within (now c) (if is_login then - 5 else 0) (if is_login then 0 else 5) t)"
    for c
  proof -
    define t where "t = get_random_date c
          (if is_login then ''-5d'' else ''now'') (if is_login then ''now'' else ''+5d'')"
    have "t = (case date_time_between c of
             None \<Rightarrow> now c
           | Some f \<Rightarrow> if is_login then f ''-5d'' ''now'' else f ''now'' ''+5d'')"
      unfolding t_def get_random_date_cases by (simp split: option.split)
    moreover have "lies_within (now c) (if is_login then - 5 else 0)
        (if is_login then 0 else 5) t"
      if "answers_within c (if is_login then ''-5d'' else ''now'')
          (if is_login then ''now'' else ''+5d'')
          (if is_login then - 5 else 0) (if is_login then 0 else 5)"
      unfolding t_def using that by (rule get_random_date_within) simp_all
    ultimately show ?thesis unfolding t_def by blast
  qed
  have one: "\<exists>new. fill_logs_login_logout clocks is_login s =
                 Returns (s\<lparr>logs := Some (ls @ new)\<rparr>) \<and>
           length new = length us \<and>
           (\<forall>k<length us.
              (\<exists>t. lgs_datetime (new ! k) = str_datetime t \<and>
                 t = (case date_time_between (clocks k) of
                        None \<Rightarrow> now (clocks k)
                      | Some f \<Rightarrow> if is_login then f ''-5d'' ''now'' else f ''now'' ''+5d'') \<and>
                 (answers_within (clocks k) (if is_login then ''-5d'' else ''now'')
                    (if is_login then ''now'' else ''+5d'')
                    (if is_login then - 5 else 0) (if is_login then 0 else 5) \<longrightarrow>
                  lies_within (now (clocks k))
                    (if is_login then - 5 else 0) (if is_login then 0 else 5) t)) \<and>
              lgs_user_id (new ! k) = Some (usr_id (us ! k)) \<and>
              lgs_space_type_id (new ! k) = Some 1 \<and>
              lgs_event_type_id (new ! k) = Some (if is_login then 1 else 5))" if "us \<noteq> []"
  proof -
    from fill_logs_login_logout_Returns [OF assms(1) that assms(2), of clocks is_login]
    obtain new where n: "fill_logs_login_logout clocks is_login s =
        Returns (s\<lparr>logs := Some (ls @ new)\<rparr>)" "length new = length us"
      "\<forall>k<length us.
          lgs_datetime (new ! k) = str_datetime (get_random_date (clocks k)
             (if is_login then ''-5d'' else ''now'') (if is_login then ''now'' else ''+5d'')) \<and>
          lgs_user_id (new ! k) = Some (usr_id (us ! k)) \<and>
          lgs_space_type_id (new ! k) = Some 1 \<and>
          lgs_event_type_id (new ! k) = Some (if is_login then 1 else 5)"
      by blast
    from n(3) stamp have "\<forall>k<length us.
              (\<exists>t. lgs_datetime (new ! k) = str_datetime t \<and>
                 t = (case date_time_between (clocks k) of
                        None \<Rightarrow> now (clocks k)
                      | Some f \<Rightarrow> if is_login then f ''-5d'' ''now'' else f ''now'' ''+5d'') \<and>
                 (answers_within (clocks k) (if is_login then ''-5d'' else ''now'')
                    (if is_login then ''now'' else ''+5d'')
                    (if is_login then - 5 else 0) (if is_login then 0 else 5) \<longrightarrow>
                  lies_within (now (clocks k))
                    (if is_login then - 5 else 0) (if is_login then 0 else 5) t)) \<and>
              lgs_user_id (new ! k) = Some (usr_id (us ! k)) \<and>
              lgs_space_type_id (new ! k) = Some 1 \<and>
              lgs_event_type_id (new ! k) = Some (if is_login then 1 else 5)"
      by simp
    with n(1,2) show ?thesis by blast
  qed
  have many: "\<exists>new. main_fill \<lparr>arg_create_tables = False, arg_users_count = None,
                    arg_blogs_count = None, arg_posts_count = None,
                    arg_comments_count = None, arg_actions_count = Some m\<rparr> d s =
                  ([], Returns (s\<lparr>logs := Some (ls @ new)\<rparr>)) \<and>
              length new = 2 * nat m * length us \<and>
              length (filter (\<lambda>l. lgs_event_type_id l = Some 1) new) = nat m * length us \<and>
              length (filter (\<lambda>l. lgs_event_type_id l = Some 5) new) = nat m * length us \<and>
              (\<forall>l\<in>set new. lgs_space_type_id l = Some 1)" if "us \<noteq> []" "0 < m"
  proof -
    from that(2) have "m \<noteq> 0" by simp
    then show ?thesis
      using fill_actions_Returns [OF assms(1) that(1) assms(2), of "drawn_clocks d" 0 "nat m"]
      by (simp add: main_fill_actions_only)
  qed
  show ?thesis using none one many seeded_names(1,5,6) by blast
qed


text \<open>
  Two rounds on the example store with its three users, without faker: twelve rows, six
  logins and six logouts.  And one login fill with faker installed: three rows, the first
  stamped with faker's answer for \<open>-5d\<close> to \<open>now\<close>, which lies in the five days before the
  current time.
\<close>

theorem login_logout_per_user_witness:
  "(\<exists>new. main_fill \<lparr>arg_create_tables = False, arg_users_count = None,
            arg_blogs_count = None, arg_posts_count = None, arg_comments_count = None,
            arg_actions_count = Some 2\<rparr> example_draws example_store =
          ([], Returns (example_store\<lparr>logs := Some (example_logs @ new)\<rparr>)) \<and>
        length new = 12 \<and>
        length (filter (\<lambda>l. lgs_event_type_id l = Some 1) new) = 6 \<and>
        length (filter (\<lambda>l. lgs_event_type_id l = Some 5) new) = 6) \<and>
   (\<exists>new. fill_logs_login_logout (\<lambda>k. faker_clock) True example_store =
          Returns (example_store\<lparr>logs := Some (example_logs @ new)\<rparr>) \<and>
        length new = 3 \<and>
        lgs_datetime (new ! 0) = ''2024-05-14 08:00:00'' \<and>
        lgs_user_id (new ! 0) = Some 1 \<and>
        lgs_space_type_id (new ! 0) = Some 1 \<and>
        lgs_event_type_id (new ! 0) = Some 1 \<and>
        lies_within (now faker_clock) (- 5) 0 (example_faker ''-5d'' ''now''))"
proof -
  have s: "users example_store = Some example_users" "logs example_store = Some example_logs"
    by (simp_all add: example_store_def)
  have u: "example_users \<noteq> []" "length example_users = 3"
    by (simp_all add: example_users_def)
  have m: "(0::int) < 2" by simp
  from login_logout_per_user
    [OF s, of "drawn_clocks example_draws 0 True" True 2 example_draws] u(1) m
  have "\<exists>new. main_fill \<lparr>arg_create_tables = False, arg_users_count = None,
            arg_blogs_count = None, arg_posts_count = None, arg_comments_count = None,
            arg_actions_count = Some 2\<rparr> example_draws example_store =
          ([], Returns (example_store\<lparr>logs := Some (example_logs @ new)\<rparr>)) \<and>
     length new = 2 * nat 2 * length example_users \<and>
     length (filter (\<lambda>l. lgs_event_type_id l = Some 1) new) = nat 2 * length example_users \<and>
     length (filter (\<lambda>l. lgs_event_type_id l = Some 5) new) = nat 2 * length example_users \<and>
     (\<forall>l\<in>set new. lgs_space_type_id l = Some 1)"
    by simp
  then obtain new where "main_fill \<lparr>arg_create_tables = False, arg_users_count = None,
            arg_blogs_count = None, arg_posts_count = None, arg_comments_count = None,
            arg_actions_count = Some 2\<rparr> example_draws example_store =
          ([], Returns (example_store\<lparr>logs := Some (example_logs @ new)\<rparr>))"
    "length new = 2 * nat 2 * length example_users"
    "length (filter (\<lambda>l. lgs_event_type_id l = Some 1) new) = nat 2 * length example_users"
    "length (filter (\<lambda>l. lgs_event_type_id l = Some 5) new) = nat 2 * length example_users"
    by (elim exE conjE)
  then have "main_fill \<lparr>arg_create_tables = False, arg_users_count = None,
            arg_blogs_count = None, arg_posts_count = None, arg_comments_count = None,
            arg_actions_count = Some 2\<rparr> example_draws example_store =
          ([], Returns (example_store\<lparr>logs := Some (example_logs @ new)\<rparr>)) \<and>
        length new = 12 \<and>
        length (filter (\<lambda>l. lgs_event_type_id l = Some 1) new) = 6 \<and>
        length (filter (\<lambda>l. lgs_event_type_id l = Some 5) new) = 6"
    using u(2) by simp
  then have rounds: "\<exists>new. main_fill \<lparr>arg_create_tables = False, arg_users_count = None,
            arg_blogs_count = None, arg_posts_count = None, arg_comments_count = None,
            arg_actions_count = Some 2\<rparr> example_draws example_store =
          ([], Returns (example_store\<lparr>logs := Some (example_logs @ new)\<rparr>)) \<and>
        length new = 12 \<and>
        length (filter (\<lambda>l. lgs_event_type_id l = Some 1) new) = 6 \<and>
        length (filter (\<lambda>l. lgs_event_type_id l = Some 5) new) = 6"
    by (intro exI)
  have f: "date_time_between faker_clock = Some example_faker"
    by (simp add: faker_clock_def)
  have w: "answers_within faker_clock ''-5d'' ''now'' (- 5) 0"
    by code_simp
  have stamp: "str_datetime (example_faker ''-5d'' ''now'') = ''2024-05-14 08:00:00''"
    by code_simp
  have first: "usr_id (example_users ! 0) = 1"
    by (simp add: example_users_def)
  from login_logout_per_user [OF s, of "\<lambda>k. faker_clock" True 2 example_draws] u(1) w
  have "\<exists>new. fill_logs_login_logout (\<lambda>k. faker_clock) True example_store =
          Returns (example_store\<lparr>logs := Some (example_logs @ new)\<rparr>) \<and>
        length new = length example_users \<and>
        (\<forall>k<length example_users.
           lgs_datetime (new ! k) = str_datetime (example_faker ''-5d'' ''now'') \<and>
           lies_within (now faker_clock) (- 5) 0 (example_faker ''-5d'' ''now'') \<and>
           lgs_user_id (new ! k) = Some (usr_id (example_users ! k)) \<and>
           lgs_space_type_id (new ! k) = Some 1 \<and>
           lgs_event_type_id (new ! k) = Some 1)"
    by (simp add: f)
  then obtain new2 where n: "fill_logs_login_logout (\<lambda>k. faker_clock) True example_store =
          Returns (example_store\<lparr>logs := Some (example_logs @ new2)\<rparr>)"
    "length new2 = length example_users"
    "\<forall>k<length example_users.
           lgs_datetime (new2 ! k) = str_datetime (example_faker ''-5d'' ''now'') \<and>
           lies_within (now faker_clock) (- 5) 0 (example_faker ''-5d'' ''now'') \<and>
           lgs_user_id (new2 ! k) = Some (usr_id (example_users ! k)) \<and>
           lgs_space_type_id (new2 ! k) = Some 1 \<and>
           lgs_event_type_id (new2 ! k) = Some 1"
    by (elim exE conjE)
  have "0 < length example_users" using u(2) by simp
  from n(3) [rule_format, OF this]
  have "lgs_datetime (new2 ! 0) = str_datetime (example_faker ''-5d'' ''now'') \<and>
      lies_within (now faker_clock) (- 5) 0 (example_faker ''-5d'' ''now'') \<and>
      lgs_user_id (new2 ! 0) = Some 1 \<and>
      lgs_space_type_id (new2 ! 0) = Some 1 \<and>
      lgs_event_type_id (new2 ! 0) = Some 1"
    by (simp add: first)
  then have "fill_logs_login_logout (\<lambda>k. faker_clock) True example_store =
          Returns (example_store\<lparr>logs := Some (example_logs @ new2)\<rparr>) \<and>
        length new2 = 3 \<and>
        lgs_datetime (new2 ! 0) = ''2024-05-14 08:00:00'' \<and>
        lgs_user_id (new2 ! 0) = Some 1 \<and>
        lgs_space_type_id (new2 ! 0) = Some 1 \<and>
        lgs_event_type_id (new2 ! 0) = Some 1 \<and>
        lies_within (now faker_clock) (- 5) 0 (example_faker ''-5d'' ''now'')"
    using n(1,2) u(2) by (simp add: stamp)
  then have "\<exists>new. fill_logs_login_logout (\<lambda>k. faker_clock) True example_store =
          Returns (example_store\<lparr>logs := Some (example_logs @ new)\<rparr>) \<and>
        length new = 3 \<and>
        lgs_datetime (new ! 0) = ''2024-05-14 08:00:00'' \<and>
        lgs_user_id (new ! 0) = Some 1 \<and>
        lgs_space_type_id (new ! 0) = Some 1 \<and>
        lgs_event_type_id (new ! 0) = Some 1 \<and>
        lies_within (now faker_clock) (- 5) 0 (example_faker ''-5d'' ''now'')"
    by (intro exI)
  with rounds show ?thesis by (intro conjI)
qed

subsection \<open>\<open>get_user_comments_info\<close>\<close>

text \<open>
  \<^bold>\<open>C1\<close>, as amended.  On a store with the three tables, whose \<open>users\<close> and \<open>post\<close> ids are
  distinct (they are primary keys), and for a login that is read as written (no double
  quote or NUL in it, not the name of a column or alias in scope),
  \<open>get_user_comments_info\<close> returns exactly one row for each row of \<open>comment\<close> whose author
  has the login and whose post exists, twice for two comments on one post.  The row of a
  comment is the login, the header of its post, the login of the post's author (NULL
  when the post has none) and the number of all rows of \<open>comment\<close> with the same
  \<open>post_id\<close>, whoever wrote them.  The rows are matched with the comments in table order.
\<close>

theorem comments_info_rows:
  assumes "read_as_written comments_scope u"
    and "comment s = Some cs" "users s = Some us" "post s = Some ps"
    and "distinct (map usr_id us)" "distinct (map pst_id ps)"
  shows "\<exists>rows. get_user_comments_info s u = Returns rows \<and>
     list_all2 (\<lambda>cmt (l, h, a, n).
         l = u \<and>
         (\<exists>pst\<in>set ps. cmt_post_id cmt = Some (pst_id pst) \<and> h = pst_header pst \<and>
            (case a of None \<Rightarrow> \<forall>w\<in>set us. pst_author_id pst \<noteq> Some (usr_id w)
                     | Some x \<Rightarrow> \<exists>w\<in>set us. pst_author_id pst = Some (usr_id w) \<and> x = usr_login w)) \<and>
         n = length (filter (\<lambda>c. cmt_post_id c = cmt_post_id cmt) cs))
       (filter (\<lambda>cmt. (\<exists>usr\<in>set us. cmt_author_id cmt = Some (usr_id usr) \<and> usr_login usr = u) \<and>
                      (\<exists>pst\<in>set ps. cmt_post_id cmt = Some (pst_id pst))) cs)
       rows"
proof -
  have "get_user_comments_info s u = Returns (concat (map (comment_rows cs us ps u) cs))"
    using assms(1-4)
    by (simp add: get_user_comments_info_def login_operand_Literal user_comments_def)
  then show ?thesis using user_comments_rows [OF assms(5,6), of u cs cs] by blast
qed


text \<open>
  The login \<open>ann\<close> in the example store: three rows, for the comments 1, 2 and 5.
\<close>

theorem comments_info_rows_witness:
  "get_user_comments_info example_store ''ann'' =
     Returns [(''ann'', ''First'', Some ''bob'', 3), (''ann'', ''First'', Some ''bob'', 3),
              (''ann'', ''Second'', None, 1)] \<and>
   length (filter (\<lambda>cmt.
       (\<exists>usr\<in>set example_users. cmt_author_id cmt = Some (usr_id usr) \<and> usr_login usr = ''ann'') \<and>
       (\<exists>pst\<in>set example_posts. cmt_post_id cmt = Some (pst_id pst))) example_comments) = 3"
proof -
  have h: "read_as_written comments_scope ''ann''"
    "comment example_store = Some example_comments" "users example_store = Some example_users"
    "post example_store = Some example_posts"
    "distinct (map usr_id example_users)" "distinct (map pst_id example_posts)"
    by code_simp+
  have v: "get_user_comments_info example_store ''ann'' =
     Returns [(''ann'', ''First'', Some ''bob'', 3), (''ann'', ''First'', Some ''bob'', 3),
              (''ann'', ''Second'', None, 1)]"
    by code_simp
  from comments_info_rows [OF h] v
  have "length (filter (\<lambda>cmt.
       (\<exists>usr\<in>set example_users. cmt_author_id cmt = Some (usr_id usr) \<and> usr_login usr = ''ann'') \<and>
       (\<exists>pst\<in>set example_posts. cmt_post_id cmt = Some (pst_id pst))) example_comments) =
     length [(''ann'', ''First'', Some ''bob'', 3::nat), (''ann'', ''First'', Some ''bob'', 3),
             (''ann'', ''Second'', None, 1)]"
    by (auto dest: list_all2_lengthD)
  with v show ?thesis by simp
qed

text \<open>
  The claim as stated fails twice.  Users named \<open>ann\<close> wrote four rows of \<open>comment\<close> in the
  example store, and the report has three rows: comment 4 has no post.  And for the
  login that is one double quote the statement ends in an open token and the call
  raises.
\<close>

theorem comments_info_counterexample:
  "length (filter (\<lambda>cmt. \<exists>usr\<in>set example_users.
       cmt_author_id cmt = Some (usr_id usr) \<and> usr_login usr = ''ann'') example_comments) = 4 \<and>
   get_user_comments_info example_store ''ann'' =
     Returns [(''ann'', ''First'', Some ''bob'', 3), (''ann'', ''First'', Some ''bob'', 3),
              (''ann'', ''Second'', None, 1)] \<and>
   get_user_comments_info example_store [dq] = Raises OperationalError"
  by code_simp



subsection \<open>\<open>get_user_actions_info\<close>\<close>

text \<open>
  \<^bold>\<open>C2\<close>, as amended.  On a store with the tables \<open>users\<close> and \<open>logs\<close> and for a login
  that is read as written, when \<open>r\<close> is the first row of \<open>users\<close> with the login,
  \<open>get_user_actions_info\<close> returns one row for each value of \<open>date(datetime)\<close> among the log
  rows whose \<open>user_id\<close> is the id of \<open>r\<close>, and no other row.  The row of a date counts the
  log rows of that user and date with \<open>event_type_id\<close> 1, those with \<open>event_type_id\<close> 5 and
  those with \<open>space_type_id\<close> above 1.  Logins and logouts summed over the rows are the
  user's log rows with \<open>event_type_id\<close> 1 or 5.  This holds for every function \<open>date\<close>.
\<close>

theorem actions_info_rows:
  assumes "read_as_written actions_scope u"
    and "users s = Some (pre @ r # rest)" "usr_login r = u" "\<forall>q\<in>set pre. usr_login q \<noteq> u"
    and "logs s = Some ls"
  shows "\<exists>rows. get_user_actions_info date_fn s u = Returns rows \<and>
     distinct (map fst rows) \<and>
     set (map fst rows) =
       (\<lambda>l. date_fn (lgs_datetime l)) ` {l \<in> set ls. lgs_user_id l = Some (usr_id r)} \<and>
     (\<forall>(d, logins, logouts, actions) \<in> set rows.
        logins = length (filter (\<lambda>l. lgs_user_id l = Some (usr_id r) \<and>
                   date_fn (lgs_datetime l) = d \<and> lgs_event_type_id l = Some 1) ls) \<and>
        logouts = length (filter (\<lambda>l. lgs_user_id l = Some (usr_id r) \<and>
                   date_fn (lgs_datetime l) = d \<and> lgs_event_type_id l = Some 5) ls) \<and>
        actions = length (filter (\<lambda>l. lgs_user_id l = Some (usr_id r) \<and>
                   date_fn (lgs_datetime l) = d \<and>
                   (\<exists>t. lgs_space_type_id l = Some t \<and> 1 < t)) ls)) \<and>
     (\<Sum>(d, logins, logouts, actions)\<leftarrow>rows. logins + logouts) =
       length (filter (\<lambda>l. lgs_user_id l = Some (usr_id r) \<and>
                 (lgs_event_type_id l = Some 1 \<or> lgs_event_type_id l = Some 5)) ls)"
proof -
  define U where "U = (\<lambda>l::logs_row. lgs_user_id l = Some (usr_id r))"
  define mine where "mine = filter U ls"
  define rows where "rows = map (group_row date_fn mine)
      (remdups (map (\<lambda>l. date_fn (lgs_datetime l)) mine))"
  have run: "get_user_actions_info date_fn s u = Returns rows"
    using assms(1,2,5) user_actions_first [OF assms(3,4), of date_fn ls rest]
    by (simp add: get_user_actions_info_def login_operand_Literal rows_def mine_def U_def)
  have fst_row: "fst (group_row date_fn mine d) = d" for d
    by (simp add: group_row_def Let_def)
  have keys: "map fst rows = remdups (map (\<lambda>l. date_fn (lgs_datetime l)) mine)"
    by (simp add: rows_def comp_def fst_row)
  have dist: "distinct (map fst rows)" by (simp add: keys)
  have dates: "set (map fst rows) =
       (\<lambda>l. date_fn (lgs_datetime l)) ` {l \<in> set ls. lgs_user_id l = Some (usr_id r)}"
    by (simp only: keys set_remdups set_map) (simp add: mine_def U_def)
  have counts: "\<forall>(d, logins, logouts, actions) \<in> set rows.
        logins = length (filter (\<lambda>l. U l \<and>
                   date_fn (lgs_datetime l) = d \<and> lgs_event_type_id l = Some 1) ls) \<and>
        logouts = length (filter (\<lambda>l. U l \<and>
                   date_fn (lgs_datetime l) = d \<and> lgs_event_type_id l = Some 5) ls) \<and>
        actions = length (filter (\<lambda>l. U l \<and>
                   date_fn (lgs_datetime l) = d \<and>
                   (\<exists>t. lgs_space_type_id l = Some t \<and> 1 < t)) ls)"
    unfolding rows_def mine_def by (auto simp: group_row_counts)
  have total: "(\<Sum>(d, logins, logouts, actions)\<leftarrow>rows. logins + logouts) =
       length (filter (\<lambda>l. U l \<and>
                 (lgs_event_type_id l = Some 1 \<or> lgs_event_type_id l = Some 5)) ls)"
    unfolding rows_def logins_logouts_sum by (simp add: mine_def conj_commute)
  show ?thesis
    using run dist dates counts total unfolding U_def by blast
qed


text \<open>
  The login \<open>ann\<close> in the example store.  The first user with the login has the id 1; log
  row 4 belongs to the other and is not counted.
\<close>

theorem actions_info_rows_witness:
  "get_user_actions_info example_date example_store ''ann'' =
     Returns [(Some ''2024-05-17'', 1, 1, 0), (Some ''2024-05-18'', 0, 0, 1),
              (Some ''2024-05-19'', 1, 0, 0)] \<and>
   length (filter (\<lambda>l. lgs_user_id l = Some 1 \<and>
       (lgs_event_type_id l = Some 1 \<or> lgs_event_type_id l = Some 5)) example_logs) = 3"
proof -
  have h: "read_as_written actions_scope ''ann''"
    "users example_store = Some ([] @ hd example_users # tl example_users)"
    "usr_login (hd example_users) = ''ann''"
    "logs example_store = Some example_logs"
    by code_simp+
  have e: "\<forall>q\<in>set []. usr_login q \<noteq> ''ann''" by simp
  have v: "get_user_actions_info example_date example_store ''ann'' =
     Returns [(Some ''2024-05-17'', 1, 1, 0), (Some ''2024-05-18'', 0, 0, 1),
              (Some ''2024-05-19'', 1, 0, 0)]"
    by code_simp
  have i: "usr_id (hd example_users) = 1" by code_simp
  from actions_info_rows [OF h(1,2,3) e h(4), of example_date] v
  have "(\<Sum>(d, logins, logouts, actions)\<leftarrow>[(Some ''2024-05-17'', 1::nat, 1::nat, 0::nat),
            (Some ''2024-05-18'', 0, 0, 1), (Some ''2024-05-19'', 1, 0, 0)]. logins + logouts) =
       length (filter (\<lambda>l. lgs_user_id l = Some (usr_id (hd example_users)) \<and>
                 (lgs_event_type_id l = Some 1 \<or> lgs_event_type_id l = Some 5)) example_logs)"
    by auto
  with v i show ?thesis by simp
qed

text \<open>
  The claim as stated fails for the login that is one double quote: the statement ends
  in an open token and the call raises.
\<close>

theorem actions_info_counterexample:
  "get_user_actions_info example_date example_store [dq] = Raises OperationalError"
  by code_simp

subsection \<open>Unknown logins\<close>

text \<open>
  \<^bold>\<open>C7\<close>, as amended.  On a store with a \<open>users\<close> table in which no row has the login,
  and for a login that is read as written, both reports return the empty list (the
  comments report when \<open>comment\<close> and \<open>post\<close> exist, the actions report when \<open>logs\<close> exists).
\<close>

theorem unknown_login_empty:
  assumes "users s = Some us" "\<forall>usr\<in>set us. usr_login usr \<noteq> u"
  shows "(read_as_written comments_scope u \<and> comment s \<noteq> None \<and> post s \<noteq> None \<longrightarrow>
            get_user_comments_info s u = Returns []) \<and>
         (read_as_written actions_scope u \<and> logs s \<noteq> None \<longrightarrow>
            get_user_actions_info date_fn s u = Returns [])"
  using assms
  by (auto simp: get_user_comments_info_def get_user_actions_info_def login_operand_Literal
      user_comments_unknown user_actions_unknown)


text \<open>Nobody is called \<open>carol\<close> in the example store.\<close>

theorem unknown_login_empty_witness:
  "get_user_comments_info example_store ''carol'' = Returns [] \<and>
   get_user_actions_info example_date example_store ''carol'' = Returns []"
proof -
  have h: "users example_store = Some example_users"
    "\<forall>usr\<in>set example_users. usr_login usr \<noteq> ''carol''"
    by code_simp+
  have k: "read_as_written comments_scope ''carol''" "comment example_store \<noteq> None"
    "post example_store \<noteq> None" "read_as_written actions_scope ''carol''"
    "logs example_store \<noteq> None"
    by code_simp+
  from unknown_login_empty [OF h, of example_date] k show ?thesis by blast
qed

text \<open>
  The claim as stated fails for the login that is one double quote, which is the login of
  no user: both calls raise.
\<close>

theorem unknown_login_counterexample:
  "users seeded_store = Some [] \<and>
   get_user_comments_info seeded_store [dq] = Raises OperationalError \<and>
   get_user_actions_info example_date seeded_store [dq] = Raises OperationalError"
  by code_simp

end
